theory Spec2Isabelle
  imports Main "HOL-Library.Sublist"
begin

section \<open>The Tomato scheduler plugin (\<^verbatim>\<open>aiida_aurora/scheduler.py\<close>)\<close>

text \<open>
  A shallow embedding of the command generators and output parsers of the class
  \<^verbatim>\<open>TomatoScheduler\<close>. Python strings are modelled as \<^typ>\<open>string\<close>: a character
  is a code point below 256. Exceptions are values of the type \<open>error\<close> (the message of
  an exception is not kept). Python names with a leading underscore are written without it.
\<close>

subsection \<open>Python string operations\<close>

text \<open>
  \<^verbatim>\<open>str.isspace\<close> on one character: the code points 9 to 13, 28 to 32, 133 and 160 are
  the white space below 256. \<^verbatim>\<open>str.strip()\<close>, \<^verbatim>\<open>str.split()\<close> and the class
  \<^verbatim>\<open>\s\<close> of the module \<^verbatim>\<open>re\<close> use this set.
\<close>

definition isspace :: "char \<Rightarrow> bool" where
  "isspace c = (c \<in> set [CHR 0x09, CHR 0x0A, CHR 0x0B, CHR 0x0C, CHR 0x0D, CHR 0x1C,
     CHR 0x1D, CHR 0x1E, CHR 0x1F, CHR '' '', CHR 0x85, CHR 0xA0])"

text \<open>\<^verbatim>\<open>str.isdecimal\<close> on one character, the class \<^verbatim>\<open>\d\<close>: below 256 only 0 to 9.\<close>

definition isdigit :: "char \<Rightarrow> bool" where
  "isdigit c = (c \<in> set ''0123456789'')"

text \<open>\<^verbatim>\<open>s.strip()\<close>: white space removed at both ends.\<close>

definition strip :: "string \<Rightarrow> string" where
  "strip s = rev (dropWhile isspace (rev (dropWhile isspace s)))"

text \<open>\<^verbatim>\<open>sub in s\<close> for two strings: \<open>sub\<close> occurs in \<open>s\<close> as a contiguous block.\<close>

fun str_contains :: "string \<Rightarrow> string \<Rightarrow> bool" where
  "str_contains sub [] = (sub = [])"
| "str_contains sub (c # cs) = (prefix sub (c # cs) \<or> str_contains sub cs)"

text \<open>
  \<^verbatim>\<open>s.split(sep)\<close> for a separator of one character: every occurrence of the separator
  ends a piece, so the result always has at least one piece. The first argument is the
  piece being read.
\<close>

fun split_on :: "char \<Rightarrow> string \<Rightarrow> string \<Rightarrow> string list" where
  "split_on sep cur [] = [cur]"
| "split_on sep cur (c # cs) =
     (if c = sep then cur # split_on sep [] cs else split_on sep (cur @ [c]) cs)"

text \<open>\<^verbatim>\<open>s.split()\<close>: the maximal blocks of characters that are not white space.\<close>

fun split_ws :: "string \<Rightarrow> string \<Rightarrow> string list" where
  "split_ws cur [] = (if cur = [] then [] else [cur])"
| "split_ws cur (c # cs) =
     (if isspace c then (if cur = [] then split_ws [] cs else cur # split_ws [] cs)
      else split_ws (cur @ [c]) cs)"

text \<open>
  \<^verbatim>\<open>s.splitlines()\<close>: a line ends at a line boundary (below 256: the code points 10 to 13,
  28 to 30 and 133, with the pair 13, 10 counted as one boundary); text after the last
  boundary is a line only when it is not empty.
\<close>

definition islinebreak :: "char \<Rightarrow> bool" where
  "islinebreak c = (c \<in> set [CHR 0x0A, CHR 0x0B, CHR 0x0C, CHR 0x0D, CHR 0x1C, CHR 0x1D,
     CHR 0x1E, CHR 0x85])"

fun splitlines_from :: "string \<Rightarrow> string \<Rightarrow> string list" where
  "splitlines_from cur [] = (if cur = [] then [] else [cur])"
| "splitlines_from cur [c] = (if islinebreak c then [cur] else [cur @ [c]])"
| "splitlines_from cur (c # d # cs) =
     (if c = CHR 0x0D \<and> d = CHR 0x0A then cur # splitlines_from [] cs
      else if islinebreak c then cur # splitlines_from [] (d # cs)
      else splitlines_from (cur @ [c]) (d # cs))"

definition splitlines :: "string \<Rightarrow> string list" where
  "splitlines s = splitlines_from [] s"

subsection \<open>Job states, job records and exceptions\<close>

text \<open>The members of \<^verbatim>\<open>aiida.schedulers.datastructures.JobState\<close>.\<close>

datatype JobState = UNDETERMINED | QUEUED | QUEUED_HELD | RUNNING | SUSPENDED | DONE

text \<open>
  A \<^verbatim>\<open>JobInfo\<close> is a dictionary with attribute access; a field that was never set reads
  as \<^verbatim>\<open>None\<close>. The fields are the attributes the parser assigns. The type \<open>'t\<close> is
  the type of \<^verbatim>\<open>datetime\<close> values.
\<close>

record 't JobInfo =
  job_id :: "string option"
  title :: "string option"
  job_state :: "JobState option"
  pipeline :: "string option"
  submission_time :: "'t option"
  dispatch_time :: "'t option"
  finish_time :: "'t option"
  allocated_machines :: "string list option"
  raw_data :: "string list option"

definition new_JobInfo :: "'t JobInfo" where
  "new_JobInfo = \<lparr>job_id = None, title = None, job_state = None, pipeline = None,
     submission_time = None, dispatch_time = None, finish_time = None,
     allocated_machines = None, raw_data = None\<rparr>"

datatype error = SchedulerError | FeatureNotAvailable | TypeError | ValueError
  | IndexError | AttributeError

text \<open>The warnings written to the logger, with the values their messages print.\<close>

datatype log_msg =
    NonEmptyStderr string
  | UnrecognizedJobState string "string option"
  | TimeParseError string "string option"
  | UnrecognizedLine "string list"

subsection \<open>The status table\<close>

text \<open>The dictionary \<^verbatim>\<open>_MAP_STATUS_TOMATO\<close>; \<open>None\<close> is a missing key.\<close>

definition MAP_STATUS_TOMATO :: "string \<Rightarrow> JobState option" where
  "MAP_STATUS_TOMATO = [''q'' \<mapsto> QUEUED, ''qw'' \<mapsto> QUEUED, ''r'' \<mapsto> RUNNING,
     ''c'' \<mapsto> DONE, ''ce'' \<mapsto> DONE, ''cd'' \<mapsto> DONE]"

subsection \<open>\<^verbatim>\<open>_parse_joblist_output\<close>\<close>

text \<open>
  The body of the loop over the rows of \<^verbatim>\<open>ketchup status queue\<close>. The reads
  \<^verbatim>\<open>job[0]\<close>, \<^verbatim>\<open>job[1]\<close> and \<^verbatim>\<open>job[2]\<close> come before the test of the number of
  columns, and each raises \<^verbatim>\<open>IndexError\<close> on a row that is too short. A status that is
  not a key of the table is caught (\<^verbatim>\<open>except KeyError\<close>) and logged.
\<close>

definition parse_queue_row ::
  "string \<Rightarrow> log_msg list \<Rightarrow> error + ('t JobInfo \<times> log_msg list)" where
  "parse_queue_row line lg =
     (let job = split_ws [] line in
      if length job < 3 then Inl IndexError
      else
        let this_job = new_JobInfo\<lparr>job_id := Some (job ! 0), title := Some (job ! 1)\<rparr>;
            (st, lg') = (case MAP_STATUS_TOMATO (job ! 2) of
                           Some s \<Rightarrow> (s, lg)
                         | None \<Rightarrow> (UNDETERMINED,
                             lg @ [UnrecognizedJobState (job ! 2) (job_id this_job)]));
            this_job = this_job\<lparr>job_state := Some st\<rparr>
        in if length job = 3 then
             Inr (this_job\<lparr>pipeline := None, raw_data := Some job\<rparr>, lg')
           else if length job = 4 then
             Inr (this_job\<lparr>pipeline := Some (job ! 3), raw_data := Some job\<rparr>, lg')
           else Inl ValueError)"

fun queue_loop ::
  "string list \<Rightarrow> 't JobInfo option list \<Rightarrow> log_msg list
     \<Rightarrow> error + ('t JobInfo option list \<times> log_msg list)" where
  "queue_loop [] job_list lg = Inr (job_list, lg)"
| "queue_loop (line # rest) job_list lg =
     (case parse_queue_row line lg of
        Inl e \<Rightarrow> Inl e
      | Inr (this_job, lg') \<Rightarrow> queue_loop rest (job_list @ [Some this_job]) lg')"

text \<open>
  The body of the loop over the lines of \<^verbatim>\<open>ketchup status {jobid} && ...\<close>. The state
  is the variable \<^verbatim>\<open>this_job\<close> (\<open>None\<close> until a record is opened), the list
  \<^verbatim>\<open>job_list\<close> and the log. \<^verbatim>\<open>if this_job\<close> holds for every record, since a record
  has its \<^verbatim>\<open>job_id\<close> key from the moment it is opened. An assignment evaluates its right
  side first, so a missing \<^verbatim>\<open>line[1]\<close> raises \<^verbatim>\<open>IndexError\<close> before an attribute of
  \<^verbatim>\<open>None\<close> raises \<^verbatim>\<open>AttributeError\<close>; in the three time branches the
  \<^verbatim>\<open>IndexError\<close> and the \<^verbatim>\<open>ValueError\<close> are caught and the handler reads
  \<^verbatim>\<open>this_job.job_id\<close>. The parameter \<open>fromisoformat\<close> is
  \<^verbatim>\<open>datetime.datetime.fromisoformat\<close>, with \<open>None\<close> for its \<^verbatim>\<open>ValueError\<close>.
\<close>

type_synonym 't detail_state = "'t JobInfo option \<times> 't JobInfo option list \<times> log_msg list"

definition set_time ::
  "(string \<Rightarrow> 't option) \<Rightarrow> string \<Rightarrow> ('t option \<Rightarrow> 't JobInfo \<Rightarrow> 't JobInfo)
     \<Rightarrow> string list \<Rightarrow> 't detail_state \<Rightarrow> error + 't detail_state" where
  "set_time fromisoformat name upd vals st =
     (case st of (this_job, job_list, lg) \<Rightarrow>
        (case this_job of
           None \<Rightarrow> Inl AttributeError
         | Some j \<Rightarrow>
             (case vals of
                [] \<Rightarrow> Inr (this_job, job_list, lg @ [TimeParseError name (job_id j)])
              | v # _ \<Rightarrow>
                  (case fromisoformat v of
                     None \<Rightarrow> Inr (this_job, job_list, lg @ [TimeParseError name (job_id j)])
                   | Some t \<Rightarrow> Inr (Some (upd (Some t) j), job_list, lg)))))"

definition detail_step ::
  "(string \<Rightarrow> 't option) \<Rightarrow> string \<Rightarrow> 't detail_state \<Rightarrow> error + 't detail_state" where
  "detail_step fromisoformat raw_line st =
     (case st of (this_job, job_list, lg) \<Rightarrow>
        (case map strip (split_on CHR ''='' [] raw_line) of
           [] \<Rightarrow> Inl IndexError
         | key # vals \<Rightarrow>
             if str_contains ''jobid'' key then
               (case vals of
                  [] \<Rightarrow> Inl IndexError
                | v # _ \<Rightarrow>
                    Inr (Some (new_JobInfo\<lparr>job_id := Some v\<rparr>),
                         (case this_job of None \<Rightarrow> job_list | Some j \<Rightarrow> job_list @ [Some j]),
                         lg))
             else if str_contains ''jobname'' key then
               (case vals of
                  [] \<Rightarrow> Inl IndexError
                | v # _ \<Rightarrow>
                    (case this_job of
                       None \<Rightarrow> Inl AttributeError
                     | Some j \<Rightarrow> Inr (Some (j\<lparr>title := Some v\<rparr>), job_list, lg)))
             else if str_contains ''status'' key then
               (case vals of
                  [] \<Rightarrow> Inl IndexError
                | v # _ \<Rightarrow>
                    (case this_job of
                       None \<Rightarrow> Inl AttributeError
                     | Some j \<Rightarrow>
                         (case MAP_STATUS_TOMATO v of
                            Some s \<Rightarrow> Inr (Some (j\<lparr>job_state := Some s\<rparr>), job_list, lg)
                          | None \<Rightarrow>
                              Inr (Some (j\<lparr>job_state := Some UNDETERMINED\<rparr>), job_list,
                                   lg @ [UnrecognizedJobState v (job_id j)]))))
             else if str_contains ''submitted at'' key then
               set_time fromisoformat ''submission_time'' (\<lambda>t j. j\<lparr>submission_time := t\<rparr>)
                 vals st
             else if str_contains ''executed at'' key then
               set_time fromisoformat ''dispatch_time'' (\<lambda>t j. j\<lparr>dispatch_time := t\<rparr>)
                 vals st
             else if str_contains ''completed at'' key then
               set_time fromisoformat ''finished_time'' (\<lambda>t j. j\<lparr>finish_time := t\<rparr>)
                 vals st
             else if str_contains ''with pipeline'' key then
               (case vals of
                  [] \<Rightarrow> Inl IndexError
                | v # _ \<Rightarrow>
                    (case this_job of
                       None \<Rightarrow> Inl AttributeError
                     | Some j \<Rightarrow>
                         Inr (Some (j\<lparr>allocated_machines := Some [v]\<rparr>), job_list, lg)))
             else if str_contains ''with PID'' key then Inr st
             else Inr (this_job, job_list, lg @ [UnrecognizedLine (key # vals)])))"

fun detail_loop ::
  "(string \<Rightarrow> 't option) \<Rightarrow> string list \<Rightarrow> 't detail_state \<Rightarrow> error + 't detail_state" where
  "detail_loop fromisoformat [] st = Inr st"
| "detail_loop fromisoformat (raw_line # rest) st =
     (case detail_step fromisoformat raw_line st of
        Inl e \<Rightarrow> Inl e
      | Inr st' \<Rightarrow> detail_loop fromisoformat rest st')"

text \<open>
  The parser returns the list \<^verbatim>\<open>job_list\<close>; the model returns the log beside it. The
  test of \<^verbatim>\<open>jobdata_raw[1]\<close> comes first and raises \<^verbatim>\<open>IndexError\<close> when there are
  fewer than two lines that are not empty. The last statement of the second layout appends
  \<^verbatim>\<open>this_job\<close> whatever it is, so an entry of the list can be \<open>None\<close>.
\<close>

definition parse_joblist_output ::
  "(string \<Rightarrow> 't option) \<Rightarrow> int \<Rightarrow> string \<Rightarrow> string
     \<Rightarrow> error + ('t JobInfo option list \<times> log_msg list)" where
  "parse_joblist_output fromisoformat retval stdout stderr =
     (if retval \<noteq> 0 then Inl SchedulerError
      else
        let lg = (if strip stderr \<noteq> [] then [NonEmptyStderr (strip stderr)] else []);
            jobdata_raw = filter (\<lambda>l. l \<noteq> []) (splitlines stdout)
        in if length jobdata_raw < 2 then Inl IndexError
           else if str_contains ''========='' (jobdata_raw ! 1) then
             (if length jobdata_raw > 2 then queue_loop (drop 2 jobdata_raw) [] lg
              else Inr ([], lg))
           else if str_contains ''jobid ='' (jobdata_raw ! 0) then
             (case detail_loop fromisoformat jobdata_raw (None, [], lg) of
                Inl e \<Rightarrow> Inl e
              | Inr (this_job, job_list, lg') \<Rightarrow> Inr (job_list @ [this_job], lg'))
           else Inr ([], lg))"

subsection \<open>\<^verbatim>\<open>_get_joblist_command\<close>\<close>

text \<open>
  The values the argument \<^verbatim>\<open>jobs\<close> is given: \<^verbatim>\<open>None\<close>, a string, a list of
  strings, or an integer (a value that is neither a string nor iterable). \<^verbatim>\<open>if jobs\<close>
  is Python's truth test: \<^verbatim>\<open>None\<close>, the empty string, the empty list and 0 are false.
  The argument \<^verbatim>\<open>user\<close> is \<^verbatim>\<open>None\<close> or a string.
\<close>

datatype jobs_arg = JobsNone | JobsStr string | JobsList "string list" | JobsInt int

fun jobs_truthy :: "jobs_arg \<Rightarrow> bool" where
  "jobs_truthy JobsNone = False"
| "jobs_truthy (JobsStr s) = (s \<noteq> [])"
| "jobs_truthy (JobsList js) = (js \<noteq> [])"
| "jobs_truthy (JobsInt n) = (n \<noteq> 0)"

fun user_truthy :: "string option \<Rightarrow> bool" where
  "user_truthy None = False"
| "user_truthy (Some u) = (u \<noteq> [])"

text \<open>\<^verbatim>\<open>sep.join(xs)\<close>.\<close>

fun str_join :: "string \<Rightarrow> string list \<Rightarrow> string" where
  "str_join sep [] = []"
| "str_join sep [x] = x"
| "str_join sep (x # y # ys) = x @ sep @ str_join sep (y # ys)"

definition KETCHUP :: string where
  "KETCHUP = ''ketchup''"

text \<open>
  The parameter \<open>escape_for_bash\<close> is the function of that name of
  \<^verbatim>\<open>aiida.common.escaping\<close>. Iterating over an integer raises \<^verbatim>\<open>TypeError\<close>, which
  the handler raises again with its own message. The debug message is not modelled.
\<close>

definition get_joblist_command ::
  "(string \<Rightarrow> string) \<Rightarrow> jobs_arg \<Rightarrow> string option \<Rightarrow> error + string" where
  "get_joblist_command escape_for_bash jobs user =
     (if user_truthy user then Inl FeatureNotAvailable
      else if jobs_truthy jobs then
        (case jobs of
           JobsStr s \<Rightarrow> Inr (KETCHUP @ '' status '' @ escape_for_bash s)
         | JobsList js \<Rightarrow> Inr (str_join '' && '' (map (\<lambda>j. KETCHUP @ '' status '' @ j) js))
         | _ \<Rightarrow> Inl TypeError)
      else Inr (KETCHUP @ '' status queue''))"

subsection \<open>\<^verbatim>\<open>_get_submit_script_header\<close>\<close>

text \<open>The two attributes of the job template that the method reads.\<close>

record JobTemplate =
  shell_type :: string
  job_name :: "string option"

text \<open>
  The characters the substitution \<^verbatim>\<open>re.sub(r"[^a-zA-Z0-9_.-]+", "", name)\<close> keeps, and
  the characters of \<^verbatim>\<open>string.ascii_letters + string.digits\<close>.
\<close>

definition title_char :: "char \<Rightarrow> bool" where
  "title_char c =
     (c \<in> set ''abcdefghijklmnopqrstuvwxyzABCDEFGHIJKLMNOPQRSTUVWXYZ0123456789_.-'')"

definition letter_or_digit :: "char \<Rightarrow> bool" where
  "letter_or_digit c =
     (c \<in> set ''abcdefghijklmnopqrstuvwxyzABCDEFGHIJKLMNOPQRSTUVWXYZ0123456789'')"

text \<open>
  The method stores the shell of the template in the class attribute \<^verbatim>\<open>_shell_cmd\<close>
  and returns the header: the result is the pair of the new \<^verbatim>\<open>_shell_cmd\<close> and the
  header. Removing every block of characters outside the class is \<open>filter\<close>.
\<close>

definition get_submit_script_header :: "JobTemplate \<Rightarrow> string \<times> string" where
  "get_submit_script_header job_tmpl =
     (shell_type job_tmpl,
      (case job_name job_tmpl of
         None \<Rightarrow> []
       | Some name \<Rightarrow>
           if name = [] then []
           else
             let job_title = filter title_char name;
                 job_title = (case job_title of
                                [] \<Rightarrow> CHR ''j'' # job_title
                              | c # _ \<Rightarrow> if \<not> letter_or_digit c then CHR ''j'' # job_title
                                         else job_title);
                 job_title = take 128 job_title
             in if shell_type job_tmpl = ''powershell''
                then ''$JOB_TITLE='' @ [CHR 0x27] @ job_title @ [CHR 0x27]
                else ''JOB_TITLE='' @ [CHR 0x27] @ job_title @ [CHR 0x27]))"

subsection \<open>\<^verbatim>\<open>_parse_submit_output\<close>\<close>

text \<open>
  The part of the syntax of the module \<^verbatim>\<open>re\<close> that the pattern
  \<^verbatim>\<open>_TOMATO_SUBMITTED_REGEXP\<close> uses: \<^verbatim>\<open>.\<close> (any character but the newline), a
  literal text, \<^verbatim>\<open>\s\<close>, \<^verbatim>\<open>\d\<close>, concatenation, the greedy \<^verbatim>\<open>*\<close> and
  \<^verbatim>\<open>?\<close>, and a group with its name (a group without a name has its number as name).
  \<^verbatim>\<open>r+\<close> is \<^verbatim>\<open>rr*\<close>.
\<close>

datatype regex = Any | Lit string | Space | Digit | Seq regex regex | Star regex | Opt regex
  | Group string regex

definition Plus :: "regex \<Rightarrow> regex" where
  "Plus r = Seq r (Star r)"

text \<open>
  The backtracking matcher. \<open>rmatch r s caps\<close> lists the ways \<open>r\<close> matches at the start
  of \<open>s\<close>, each as the rest of the input and the groups captured, in the order in which
  backtracking tries them: a greedy operator tries the longer match first. An iteration of
  \<^verbatim>\<open>*\<close> that consumes nothing is not repeated.
\<close>

type_synonym groups = "string \<Rightarrow> string option"

function rmatch :: "regex \<Rightarrow> string \<Rightarrow> groups \<Rightarrow> (string \<times> groups) list" where
  "rmatch Any s caps = (case s of [] \<Rightarrow> [] | c # cs \<Rightarrow> if c \<noteq> CHR 0x0A then [(cs, caps)] else [])"
| "rmatch (Lit w) s caps = (if prefix w s then [(drop (length w) s, caps)] else [])"
| "rmatch Space s caps = (case s of [] \<Rightarrow> [] | c # cs \<Rightarrow> if isspace c then [(cs, caps)] else [])"
| "rmatch Digit s caps = (case s of [] \<Rightarrow> [] | c # cs \<Rightarrow> if isdigit c then [(cs, caps)] else [])"
| "rmatch (Seq r1 r2) s caps =
     concat (map (\<lambda>(s1, caps1). rmatch r2 s1 caps1) (rmatch r1 s caps))"
| "rmatch (Star r) s caps =
     concat (map (\<lambda>(s1, caps1). if length s1 < length s then rmatch (Star r) s1 caps1 else [])
               (rmatch r s caps)) @ [(s, caps)]"
| "rmatch (Opt r) s caps = rmatch r s caps @ [(s, caps)]"
| "rmatch (Group name r) s caps =
     map (\<lambda>(s1, caps1). (s1, caps1(name \<mapsto> take (length s - length s1) s)))
       (rmatch r s caps)"
  by pat_completeness auto
termination
  by (relation "measures [\<lambda>(r, s, caps). size r, \<lambda>(r, s, caps). length s]") auto

text \<open>
  The equation for \<^verbatim>\<open>*\<close> unfolds into itself, so it is not a simplification rule.
\<close>

declare rmatch.simps(6) [simp del]

text \<open>
  \<^verbatim>\<open>pattern.match(s)\<close>: the first way the pattern matches at the start of \<open>s\<close>, as the
  groups of the match object, or \<open>None\<close>.
\<close>

definition re_match :: "regex \<Rightarrow> string \<Rightarrow> groups option" where
  "re_match r s = (case rmatch r s Map.empty of [] \<Rightarrow> None | (rest, caps) # _ \<Rightarrow> Some caps)"

text \<open>The pattern \<^verbatim>\<open>(.*:\s*)?(jobid\s+=)\s+(?P<jobid>\d+)\<close>.\<close>

definition TOMATO_SUBMITTED_REGEXP :: regex where
  "TOMATO_SUBMITTED_REGEXP =
     Seq (Opt (Group ''1'' (Seq (Star Any) (Seq (Lit '':'') (Star Space)))))
       (Seq (Group ''2'' (Seq (Lit ''jobid'') (Seq (Plus Space) (Lit ''=''))))
          (Seq (Plus Space) (Group ''jobid'' (Plus Digit))))"

text \<open>
  The loop over \<^verbatim>\<open>stdout.split("\n")\<close> returns \<^verbatim>\<open>match.group("jobid")\<close> at the first
  line that matches; \<^verbatim>\<open>group\<close> gives \<^verbatim>\<open>None\<close> for a group that took no part in the
  match. After the loop the method raises \<^verbatim>\<open>SchedulerError\<close>. The messages
  written to the logger are not modelled.
\<close>

fun submit_loop :: "string list \<Rightarrow> error + string option" where
  "submit_loop [] = Inl SchedulerError"
| "submit_loop (line # rest) =
     (case re_match TOMATO_SUBMITTED_REGEXP (strip line) of
        Some caps \<Rightarrow> Inr (caps ''jobid'')
      | None \<Rightarrow> submit_loop rest)"

definition parse_submit_output :: "int \<Rightarrow> string \<Rightarrow> string \<Rightarrow> error + string option" where
  "parse_submit_output retval stdout stderr =
     (if retval \<noteq> 0 then Inl SchedulerError
      else submit_loop (split_on CHR 0x0A [] stdout))"

subsection \<open>The specification's reading of the parsers\<close>

text \<open>
  The function \<^verbatim>\<open>StateMapper\<close> of the specification: the table of vendor codes, and
  \<open>UNDETERMINED\<close> for every other string.
\<close>

definition StateMapper :: "string \<Rightarrow> JobState" where
  "StateMapper code =
     (if code = ''q'' then QUEUED
      else if code = ''qw'' then QUEUED
      else if code = ''r'' then RUNNING
      else if code = ''c'' then DONE
      else if code = ''ce'' then DONE
      else if code = ''cd'' then DONE
      else UNDETERMINED)"

text \<open>The warning for text on the standard error, the first entry of the log.\<close>

definition stderr_log :: "string \<Rightarrow> log_msg list" where
  "stderr_log stderr = (if strip stderr \<noteq> [] then [NonEmptyStderr (strip stderr)] else [])"

text \<open>
  A row of the queue listing as the specification reads it: the fields are, in order,
  the job id, the title, the status code and, in a row of four fields, the pipeline.
  \<open>row_warnings\<close> is the warning for a status code that is not in the table, and a
  \<open>bad_row\<close> has neither three nor four fields.
\<close>

definition row_record :: "string list \<Rightarrow> 't JobInfo" where
  "row_record job =
     \<lparr>job_id = Some (job ! 0), title = Some (job ! 1),
      job_state = Some (StateMapper (job ! 2)),
      pipeline = (if length job = 4 then Some (job ! 3) else None),
      submission_time = None, dispatch_time = None, finish_time = None,
      allocated_machines = None, raw_data = Some job\<rparr>"

definition row_warnings :: "string list \<Rightarrow> log_msg list" where
  "row_warnings job =
     (if MAP_STATUS_TOMATO (job ! 2) = None
      then [UnrecognizedJobState (job ! 2) (Some (job ! 0))] else [])"

definition bad_row :: "string \<Rightarrow> bool" where
  "bad_row line = (length (split_ws [] line) \<noteq> 3 \<and> length (split_ws [] line) \<noteq> 4)"

text \<open>
  The invariant of the loop over the detailed report: the open record and every record
  of the list have a job id.
\<close>

definition ids_set :: "'t detail_state \<Rightarrow> bool" where
  "ids_set st = (case st of (this_job, job_list, lg) \<Rightarrow>
     (\<forall>r. this_job = Some r \<longrightarrow> job_id r \<noteq> None) \<and>
     (\<forall>r. Some r \<in> set job_list \<longrightarrow> job_id r \<noteq> None))"

text \<open>
  A line of the detailed report as the source reads it. \<open>pieces\<close> is the list
  \<^verbatim>\<open>line = list(map(str.strip, raw_line.split("=")))\<close>. \<open>opens_record\<close> is the first
  test of the loop body, \<^verbatim>\<open>"jobid" in line[0]\<close>: the line opens a record when its first
  piece contains \<open>jobid\<close> anywhere. \<open>line_value\<close> is \<^verbatim>\<open>line[1]\<close>, and
  \<open>open_records\<close> lists the record that \<^verbatim>\<open>if this_job\<close> finds (none or one).
\<close>

definition pieces :: "string \<Rightarrow> string list" where
  "pieces raw_line = map strip (split_on CHR ''='' [] raw_line)"

definition opens_record :: "string \<Rightarrow> bool" where
  "opens_record raw_line =
     (case pieces raw_line of [] \<Rightarrow> False | key # _ \<Rightarrow> str_contains ''jobid'' key)"

definition line_value :: "string \<Rightarrow> string option" where
  "line_value raw_line = (case pieces raw_line of key # v # _ \<Rightarrow> Some v | _ \<Rightarrow> None)"

definition open_records :: "'a option \<Rightarrow> 'a list" where
  "open_records this_job = (case this_job of None \<Rightarrow> [] | Some j \<Rightarrow> [j])"

text \<open>
  The \<open>jobid\<close> key in the words of the specification, a literal match: the key of the
  line is the word \<open>jobid\<close> itself. Every such line opens a record; a line such as
  \<open>old jobid = 0\<close> opens a record and has no \<open>jobid\<close> key.
\<close>

definition jobid_key :: "string \<Rightarrow> bool" where
  "jobid_key raw_line = (case pieces raw_line of [] \<Rightarrow> False | key # _ \<Rightarrow> key = ''jobid'')"

text \<open>
  The key words of the detailed report in the order of the \<^verbatim>\<open>if\<close>/\<^verbatim>\<open>elif\<close> chain, and
  the key word that a left-hand side selects: the first one it contains.
\<close>

definition DETAIL_KEYS :: "string list" where
  "DETAIL_KEYS = [''jobid'', ''jobname'', ''status'', ''submitted at'', ''executed at'',
     ''completed at'', ''with pipeline'', ''with PID'']"

definition matched_key :: "string \<Rightarrow> string option" where
  "matched_key key = find (\<lambda>k. str_contains k key) DETAIL_KEYS"

text \<open>
  The state that the lines of one block of the detailed report leave in its record: the
  state of the table for the value of the last status line, and no state when the block
  has no status line.
\<close>

fun last_status :: "JobState option \<Rightarrow> string list \<Rightarrow> JobState option" where
  "last_status st [] = st"
| "last_status st (raw_line # rest) =
     last_status
       (case pieces raw_line of
          key # v # _ \<Rightarrow> if matched_key key = Some ''status'' then Some (StateMapper v) else st
        | _ \<Rightarrow> st)
       rest"

text \<open>The job title inside the header, computed from a name that is not empty.\<close>

definition job_title_of :: "string \<Rightarrow> string" where
  "job_title_of name =
     take 128 (case filter title_char name of
                 [] \<Rightarrow> ''j''
               | c # cs \<Rightarrow> if letter_or_digit c then c # cs else CHR ''j'' # c # cs)"

text \<open>
  The texts that a pattern matches, whatever the order of backtracking: \<open>star A\<close> is
  the set of the concatenations of texts of \<open>A\<close>.
\<close>

inductive_set star :: "string set \<Rightarrow> string set" for A :: "string set" where
  star_Nil: "[] \<in> star A"
| star_step: "u \<in> A \<Longrightarrow> v \<in> star A \<Longrightarrow> u @ v \<in> star A"

primrec lang :: "regex \<Rightarrow> string set" where
  "lang Any = {[c] | c. c \<noteq> CHR 0x0A}"
| "lang (Lit w) = {w}"
| "lang Space = {[c] | c. isspace c}"
| "lang Digit = {[c] | c. isdigit c}"
| "lang (Seq r1 r2) = {u @ v | u v. u \<in> lang r1 \<and> v \<in> lang r2}"
| "lang (Star r) = star (lang r)"
| "lang (Opt r) = insert [] (lang r)"
| "lang (Group name r) = lang r"

text \<open>
  The pattern of the specification, \<open>(optional prefix and colon) jobid = <digits>\<close>,
  for a line \<open>l\<close> and the digits \<open>d\<close>: the line is an optional prefix (any text without
  a newline, a colon, white space), the word \<open>jobid\<close>, white space, \<open>=\<close>, white space,
  the digits, and a rest that does not go on with a digit.
\<close>

definition submitted_line :: "string \<Rightarrow> string \<Rightarrow> bool" where
  "submitted_line l d \<longleftrightarrow>
     (\<exists>pre ws1 ws2 rest.
        l = pre @ ''jobid'' @ ws1 @ ''='' @ ws2 @ d @ rest
        \<and> (pre = [] \<or> (\<exists>x ws0. pre = x @ '':'' @ ws0 \<and> CHR 0x0A \<notin> set x
                          \<and> (\<forall>c \<in> set ws0. isspace c)))
        \<and> ws1 \<noteq> [] \<and> (\<forall>c \<in> set ws1. isspace c)
        \<and> ws2 \<noteq> [] \<and> (\<forall>c \<in> set ws2. isspace c)
        \<and> d \<noteq> [] \<and> (\<forall>c \<in> set d. isdigit c)
        \<and> (\<forall>c rest'. rest = c # rest' \<longrightarrow> \<not> isdigit c))"

text \<open>The first two groups of the pattern.\<close>

definition prefix_part :: regex where
  "prefix_part = Opt (Group ''1'' (Seq (Star Any) (Seq (Lit '':'') (Star Space))))"

definition key_part :: regex where
  "key_part = Group ''2'' (Seq (Lit ''jobid'') (Seq (Plus Space) (Lit ''='')))"

section \<open>Properties\<close>

subsection \<open>The status table\<close>

lemma lookup_status:
  "(case MAP_STATUS_TOMATO code of Some s \<Rightarrow> s | None \<Rightarrow> UNDETERMINED) = StateMapper code"
  by (simp add: MAP_STATUS_TOMATO_def StateMapper_def)

lemma lookup_status_None:
  "MAP_STATUS_TOMATO code = None \<Longrightarrow> StateMapper code = UNDETERMINED"
  using lookup_status [of code] by simp

lemma lookup_status_Some:
  "MAP_STATUS_TOMATO code = Some s \<Longrightarrow> StateMapper code = s"
  using lookup_status [of code] by simp

lemma parse_queue_row_ok:
  fixes lg :: "log_msg list"
  assumes "length (split_ws [] line) = 3 \<or> length (split_ws [] line) = 4"
  shows "\<exists>this_job :: 't JobInfo.
           parse_queue_row line lg =
             Inr (this_job,
                  if MAP_STATUS_TOMATO (split_ws [] line ! 2) = None
                  then lg @ [UnrecognizedJobState (split_ws [] line ! 2)
                               (Some (split_ws [] line ! 0))]
                  else lg)
           \<and> job_id this_job = Some (split_ws [] line ! 0)
           \<and> title this_job = Some (split_ws [] line ! 1)
           \<and> job_state this_job = Some (StateMapper (split_ws [] line ! 2))
           \<and> pipeline this_job =
               (if length (split_ws [] line) = 4 then Some (split_ws [] line ! 3) else None)"
  using assms
  by (auto simp: parse_queue_row_def Let_def new_JobInfo_def
           dest: lookup_status_None lookup_status_Some split: option.splits)

lemma detail_step_status:
  assumes "map strip (split_on CHR ''='' [] raw_line) = key # v # others"
    and "\<not> str_contains ''jobid'' key" and "\<not> str_contains ''jobname'' key"
    and "str_contains ''status'' key"
  shows "detail_step fromisoformat raw_line (Some j, job_list, lg) =
           Inr (Some (j\<lparr>job_state := Some (StateMapper v)\<rparr>), job_list,
                if MAP_STATUS_TOMATO v = None
                then lg @ [UnrecognizedJobState v (job_id j)] else lg)"
  using assms
  by (auto simp: detail_step_def dest: lookup_status_None lookup_status_Some
           split: option.splits)

lemma split_ws_row_unknown: "split_ws [] ''124 other zz'' = [''124'', ''other'', ''zz'']"
  by (simp add: isspace_def)

lemma pieces_status_bogus:
  "map strip (split_on CHR ''='' [] ''status = bogus'') = [''status'', ''bogus'']"
  by (simp add: strip_def isspace_def)

subsection \<open>The choice of the layout\<close>

text \<open>
  Amended C2. With exit code 0 and at least two lines of standard output that are not
  empty, the layout is chosen from those lines: when the line of index 1 (counted from 0)
  contains nine \<open>=\<close> in a row, the lines from index 2 on are parsed as rows of the queue
  listing; otherwise, when the line of index 0 contains \<open>jobid =\<close>, all the lines are
  parsed as the detailed report; otherwise the result is the empty list.
\<close>

theorem joblist_dispatch:
  assumes "jobdata_raw = filter (\<lambda>l. l \<noteq> []) (splitlines stdout)"
    and "2 \<le> length jobdata_raw"
  shows "parse_joblist_output fromisoformat 0 stdout stderr =
     (if str_contains ''========='' (jobdata_raw ! 1) then
        queue_loop (drop 2 jobdata_raw) [] (stderr_log stderr)
      else if str_contains ''jobid ='' (jobdata_raw ! 0) then
        (case detail_loop fromisoformat jobdata_raw (None, [], stderr_log stderr) of
           Inl e \<Rightarrow> Inl e
         | Inr (this_job, job_list, lg) \<Rightarrow> Inr (job_list @ [this_job], lg))
      else Inr ([], stderr_log stderr))"
proof (cases "length jobdata_raw = 2")
  case True
  then have "drop 2 jobdata_raw = []" by simp
  then show ?thesis
    using assms True
    by (simp add: parse_joblist_output_def stderr_log_def Let_def)
next
  case False
  then have "2 < length jobdata_raw" using assms by simp
  then show ?thesis
    using assms
    by (simp add: parse_joblist_output_def stderr_log_def Let_def)
qed

lemma lines_dispatch_a:
  "splitlines ''jobid = 1\<newline>status = r\<newline>========='' =
     [''jobid = 1'', ''status = r'', ''=========''] "
  by (simp add: splitlines_def islinebreak_def)

lemma lines_dispatch_b:
  "splitlines ''jobid jobname status\<newline>=========\<newline>5 a r'' =
     [''jobid jobname status'', ''========='', ''5 a r''] "
  by (simp add: splitlines_def islinebreak_def)

lemma parse_dispatch_a:
  "parse_joblist_output Some 0 ''jobid = 1\<newline>status = r\<newline>========='' [] =
     Inr ([Some (new_JobInfo\<lparr>job_id := Some ''1'', job_state := Some RUNNING\<rparr>)],
          [UnrecognizedLine ['''', '''', '''', '''', '''', '''', '''', '''', '''', '''']])"
  unfolding parse_joblist_output_def lines_dispatch_a
  by (simp add: strip_def isspace_def detail_step_def MAP_STATUS_TOMATO_def)

lemma parse_dispatch_b:
  "parse_joblist_output Some 0 ''jobid jobname status\<newline>=========\<newline>5 a r'' [] =
     Inr ([Some (new_JobInfo\<lparr>job_id := Some ''5'', title := Some ''a'',
                   job_state := Some RUNNING, raw_data := Some [''5'', ''a'', ''r'']\<rparr>)], [])"
  unfolding parse_joblist_output_def lines_dispatch_b
  by (simp add: strip_def isspace_def parse_queue_row_def MAP_STATUS_TOMATO_def new_JobInfo_def)

theorem joblist_dispatch_witness:
  "2 \<le> length (filter (\<lambda>l. l \<noteq> []) (splitlines ''jobid jobname status\<newline>=========\<newline>5 a r''))
   \<and> parse_joblist_output Some 0 ''jobid jobname status\<newline>=========\<newline>5 a r'' [] =
       queue_loop [''5 a r''] [] []
   \<and> 2 \<le> length (filter (\<lambda>l. l \<noteq> []) (splitlines ''jobid = 1\<newline>status = r\<newline>=========''))
   \<and> parse_joblist_output Some 0 ''jobid = 1\<newline>status = r\<newline>========='' [] =
       (case detail_loop Some [''jobid = 1'', ''status = r'', ''=========''] (None, [], []) of
          Inl e \<Rightarrow> Inl e
        | Inr (this_job, job_list, lg) \<Rightarrow> Inr (job_list @ [this_job], lg))"
  using joblist_dispatch [of "[''jobid jobname status'', ''========='', ''5 a r'']"
      "''jobid jobname status\<newline>=========\<newline>5 a r''" Some "[]"]
    joblist_dispatch [of "[''jobid = 1'', ''status = r'', ''=========''] "
      "''jobid = 1\<newline>status = r\<newline>=========''" Some "[]"]
  unfolding lines_dispatch_a lines_dispatch_b
  by (simp add: stderr_log_def strip_def)

text \<open>
  The claim C2 as it is written fails. In the first output the line of index 2 is a row
  of \<open>=\<close>, and the parser reads the output as a detailed report; in the second,
  a queue listing, the line of index 2 has no row of \<open>=\<close> and the line of index 1 has no
  \<open>jobid =\<close>, and the parser reads the rows of the listing.
\<close>

theorem joblist_dispatch_counterexample:
  "str_contains ''========='' (splitlines ''jobid = 1\<newline>status = r\<newline>========='' ! 2)
   \<and> parse_joblist_output Some 0 ''jobid = 1\<newline>status = r\<newline>========='' [] =
       Inr ([Some (new_JobInfo\<lparr>job_id := Some ''1'', job_state := Some RUNNING\<rparr>)],
            [UnrecognizedLine ['''', '''', '''', '''', '''', '''', '''', '''', '''', '''']])
   \<and> \<not> str_contains ''========='' (splitlines ''jobid jobname status\<newline>=========\<newline>5 a r'' ! 2)
   \<and> \<not> str_contains ''jobid ='' (splitlines ''jobid jobname status\<newline>=========\<newline>5 a r'' ! 1)
   \<and> parse_joblist_output Some 0 ''jobid jobname status\<newline>=========\<newline>5 a r'' [] =
       Inr ([Some (new_JobInfo\<lparr>job_id := Some ''5'', title := Some ''a'',
                     job_state := Some RUNNING, raw_data := Some [''5'', ''a'', ''r'']\<rparr>)], [])"
  unfolding parse_dispatch_a parse_dispatch_b lines_dispatch_a lines_dispatch_b
  by simp

text \<open>
  C10. With exit code 0 and fewer than two lines of standard output that are not empty
  (the empty output among them), the parser of the job list does not return a list: the
  test that chooses the layout reads the second such line and the call ends with an
  \<^verbatim>\<open>IndexError\<close>.
\<close>

theorem joblist_short_output_IndexError:
  "length (filter (\<lambda>l. l \<noteq> []) (splitlines stdout)) < 2 \<Longrightarrow>
     parse_joblist_output fromisoformat 0 stdout stderr = Inl IndexError"
  by (simp add: parse_joblist_output_def Let_def)

theorem joblist_short_output_IndexError_witness:
  "length (filter (\<lambda>l. l \<noteq> []) (splitlines '''')) < 2 \<and>
   parse_joblist_output (\<lambda>s. Some s) 0 '''' '''' = Inl IndexError"
  using joblist_short_output_IndexError [of "''''" "\<lambda>s. Some s" "''''"]
  by (simp add: splitlines_def)

subsection \<open>The rows of the queue listing\<close>

lemma parse_queue_row_good:
  "\<not> bad_row line \<Longrightarrow>
     parse_queue_row line lg =
       Inr (row_record (split_ws [] line), lg @ row_warnings (split_ws [] line))"
  by (auto simp: bad_row_def parse_queue_row_def Let_def new_JobInfo_def row_record_def
        row_warnings_def dest: lookup_status_None lookup_status_Some split: option.splits)

lemma parse_queue_row_bad:
  "bad_row line \<Longrightarrow>
     parse_queue_row line lg =
       Inl (if length (split_ws [] line) < 3 then IndexError else ValueError)"
  by (auto simp: bad_row_def parse_queue_row_def Let_def split: option.splits prod.splits)

lemma queue_loop_char:
  "queue_loop rows job_list lg =
     (case find bad_row rows of
        None \<Rightarrow> Inr (job_list @ map (\<lambda>r. Some (row_record (split_ws [] r))) rows,
                     lg @ concat (map (\<lambda>r. row_warnings (split_ws [] r)) rows))
      | Some r \<Rightarrow> Inl (if length (split_ws [] r) < 3 then IndexError else ValueError))"
proof (induction rows arbitrary: job_list lg)
  case Nil
  then show ?case by simp
next
  case (Cons line rows)
  show ?case
  proof (cases "bad_row line")
    case True
    then show ?thesis by (simp add: parse_queue_row_bad)
  next
    case False
    then show ?thesis
      by (simp add: parse_queue_row_good Cons.IH split: option.splits)
  qed
qed

text \<open>
  The parse of a queue listing, row by row: one record per row while the rows have three
  or four fields, and the error of the first row with another number of fields.
\<close>

lemma queue_rows_columns:
  assumes "filter (\<lambda>l. l \<noteq> []) (splitlines stdout) = header # separator # rows"
    and "str_contains ''========='' separator"
  shows "parse_joblist_output fromisoformat 0 stdout stderr =
     (case find bad_row rows of
        None \<Rightarrow> Inr (map (\<lambda>r. Some (row_record (split_ws [] r))) rows,
                     stderr_log stderr @ concat (map (\<lambda>r. row_warnings (split_ws [] r)) rows))
      | Some r \<Rightarrow> Inl (if length (split_ws [] r) < 3 then IndexError else ValueError))"
proof -
  have "parse_joblist_output fromisoformat 0 stdout stderr =
          queue_loop rows [] (stderr_log stderr)"
  proof (cases "rows = []")
    case True
    then show ?thesis
      using assms by (simp add: parse_joblist_output_def stderr_log_def Let_def)
  next
    case False
    then have "2 < length (header # separator # rows)" by simp
    then show ?thesis
      using assms by (simp add: parse_joblist_output_def stderr_log_def Let_def)
  qed
  then show ?thesis
    by (simp add: queue_loop_char split: option.splits)
qed

lemma lines_rows_a:
  "splitlines ''jobid jobname status pipeline\<newline>==========\<newline>123 myjob r pipelineA\<newline>'' =
     [''jobid jobname status pipeline'', ''=========='', ''123 myjob r pipelineA'']"
  by (simp add: splitlines_def islinebreak_def)


lemma lines_rows_b:
  "splitlines ''jobid jobname status pipeline\<newline>==========\<newline>123 myjob\<newline>'' =
     [''jobid jobname status pipeline'', ''=========='', ''123 myjob'']"
  by (simp add: splitlines_def islinebreak_def)


lemma lines_rows_c:
  "splitlines ''jobid jobname status pipeline\<newline>==========\<newline>1 a r 41 p\<newline>'' =
     [''jobid jobname status pipeline'', ''=========='', ''1 a r 41 p'']"
  by (simp add: splitlines_def islinebreak_def)


lemma tokens_a: "split_ws [] ''123 myjob r pipelineA'' = [''123'', ''myjob'', ''r'', ''pipelineA'']"
  by (simp add: isspace_def)


lemma tokens_b: "split_ws [] ''123 myjob'' = [''123'', ''myjob'']"
  by (simp add: isspace_def)


lemma tokens_c: "split_ws [] ''1 a r 41 p'' = [''1'', ''a'', ''r'', ''41'', ''p'']"
  by (simp add: isspace_def)


lemma row_short: "parse_queue_row ''123 myjob'' lg = Inl IndexError"
  unfolding parse_queue_row_def tokens_b by simp

lemma bad_a: "\<not> bad_row ''123 myjob r pipelineA''"
  unfolding bad_row_def tokens_a by simp

lemma bad_c: "bad_row ''1 a r 41 p''"
  unfolding bad_row_def tokens_c by simp

lemma queue_rows_columns_example:
  "parse_joblist_output Some 0
      ''jobid jobname status pipeline\<newline>==========\<newline>123 myjob r pipelineA\<newline>'' [] =
     Inr ([Some \<lparr>job_id = Some ''123'', title = Some ''myjob'', job_state = Some RUNNING,
                 pipeline = Some ''pipelineA'', submission_time = None, dispatch_time = None,
                 finish_time = None, allocated_machines = None,
                 raw_data = Some [''123'', ''myjob'', ''r'', ''pipelineA'']\<rparr>], [])
   \<and> parse_joblist_output Some 0
      ''jobid jobname status pipeline\<newline>==========\<newline>1 a r 41 p\<newline>'' [] = Inl ValueError"
proof -
  have sep: "str_contains ''========='' ''==========''" by simp
  have a: "filter (\<lambda>l. l \<noteq> [])
      (splitlines ''jobid jobname status pipeline\<newline>==========\<newline>123 myjob r pipelineA\<newline>'') =
      ''jobid jobname status pipeline'' # ''=========='' # [''123 myjob r pipelineA'']"
    unfolding lines_rows_a by simp
  have c: "filter (\<lambda>l. l \<noteq> [])
      (splitlines ''jobid jobname status pipeline\<newline>==========\<newline>1 a r 41 p\<newline>'') =
      ''jobid jobname status pipeline'' # ''=========='' # [''1 a r 41 p'']"
    unfolding lines_rows_c by simp
  show ?thesis
    using queue_rows_columns [OF a sep, of Some "[]"] queue_rows_columns [OF c sep, of Some "[]"]
    by (simp add: bad_a bad_c tokens_a tokens_c row_record_def row_warnings_def StateMapper_def
      MAP_STATUS_TOMATO_def stderr_log_def strip_def del: split_ws.simps)
qed

text \<open>
  C4. The claim: a row whose number of fields is not 3 or 4 makes the whole parse fail
  with the error for an unexpected number of columns. The parser raises that error, a
  \<^verbatim>\<open>ValueError\<close>, for a row of five fields. For a row of two fields the test of the
  number of columns is never reached: the read of the third field comes first, and the
  parse fails with an \<^verbatim>\<open>IndexError\<close>.
\<close>

theorem queue_short_row_IndexError:
  "length (split_ws [] ''123 myjob'') = 2
   \<and> parse_joblist_output Some 0
        ''jobid jobname status pipeline\<newline>==========\<newline>123 myjob\<newline>'' [] = Inl IndexError
   \<and> length (split_ws [] ''1 a r 41 p'') = 5
   \<and> parse_joblist_output Some 0
        ''jobid jobname status pipeline\<newline>==========\<newline>1 a r 41 p\<newline>'' [] = Inl ValueError"
proof -
  have "parse_joblist_output Some 0
        ''jobid jobname status pipeline\<newline>==========\<newline>123 myjob\<newline>'' [] = Inl IndexError"
    unfolding parse_joblist_output_def lines_rows_b
    by (simp add: row_short strip_def del: split_ws.simps)
  moreover have "parse_joblist_output Some 0
        ''jobid jobname status pipeline\<newline>==========\<newline>1 a r 41 p\<newline>'' [] = Inl ValueError"
    unfolding parse_joblist_output_def lines_rows_c
    by (simp add: parse_queue_row_bad bad_c tokens_c strip_def del: split_ws.simps)
  ultimately show ?thesis
    unfolding tokens_b tokens_c by simp
qed

subsection \<open>The fields of the records\<close>

lemma parse_queue_row_fields:
  "parse_queue_row line lg = Inr (r, lg') \<Longrightarrow> job_id r \<noteq> None \<and> job_state r \<noteq> None"
  by (auto simp: parse_queue_row_def Let_def new_JobInfo_def split: if_splits option.splits)

lemma queue_loop_fields:
  "queue_loop rows job_list lg = Inr (jobs, lg') \<Longrightarrow>
   \<forall>j \<in> set job_list. \<exists>r. j = Some r \<and> job_id r \<noteq> None \<and> job_state r \<noteq> None \<Longrightarrow>
   \<forall>j \<in> set jobs. \<exists>r. j = Some r \<and> job_id r \<noteq> None \<and> job_state r \<noteq> None"
proof (induction rows arbitrary: job_list lg)
  case Nil
  then show ?case by simp
next
  case (Cons line rows)
  from Cons.prems(1) obtain r lg1 where
    row: "parse_queue_row line lg = Inr (r, lg1)"
    and rest: "queue_loop rows (job_list @ [Some r]) lg1 = Inr (jobs, lg')"
    by (auto split: sum.splits)
  have "\<forall>j \<in> set (job_list @ [Some r]). \<exists>r. j = Some r \<and> job_id r \<noteq> None \<and> job_state r \<noteq> None"
    using Cons.prems(2) parse_queue_row_fields [OF row] by auto
  from Cons.IH [OF rest this] show ?case .
qed

lemma set_time_ids:
  "set_time fromisoformat name upd vals st = Inr st' \<Longrightarrow> ids_set st \<Longrightarrow>
   (\<And>t j. job_id (upd t j) = job_id j) \<Longrightarrow> ids_set st'"
  by (auto simp: set_time_def ids_set_def split: option.splits list.splits prod.splits)

lemma detail_step_ids:
  "detail_step fromisoformat raw_line st = Inr st' \<Longrightarrow> ids_set st \<Longrightarrow> ids_set st'"
  unfolding detail_step_def
  by (auto split: prod.splits list.splits if_splits option.splits
      simp: new_JobInfo_def ids_set_def dest!: set_time_ids [unfolded ids_set_def])

lemma detail_loop_ids:
  "detail_loop fromisoformat ls st = Inr st' \<Longrightarrow> ids_set st \<Longrightarrow> ids_set st'"
proof (induction ls arbitrary: st)
  case Nil
  then show ?case by simp
next
  case (Cons l ls)
  from Cons.prems(1) obtain st1 where
    step: "detail_step fromisoformat l st = Inr st1"
    and rest: "detail_loop fromisoformat ls st1 = Inr st'"
    by (auto split: sum.splits)
  from Cons.IH [OF rest detail_step_ids [OF step Cons.prems(2)]] show ?case .
qed

text \<open>
  What holds of the records: every record that the parser returns has a job id, and a
  record of the queue listing has a state.
\<close>

lemma joblist_records_fields:
  assumes "parse_joblist_output fromisoformat retval stdout stderr = Inr (jobs, lg)"
    and "Some r \<in> set jobs"
  shows "job_id r \<noteq> None
    \<and> (str_contains ''========='' (filter (\<lambda>l. l \<noteq> []) (splitlines stdout) ! 1) \<longrightarrow>
         job_state r \<noteq> None)"
proof -
  define raw where "raw = filter (\<lambda>l. l \<noteq> []) (splitlines stdout)"
  from assms(1) have ret: "retval = 0" and len: "2 \<le> length raw"
    by (auto simp: parse_joblist_output_def Let_def raw_def split: if_splits)
  note d = joblist_dispatch [OF raw_def len, of fromisoformat stderr]
  show ?thesis
  proof (cases "str_contains ''========='' (raw ! 1)")
    case True
    with d assms(1) ret
    have "queue_loop (drop 2 raw) [] (stderr_log stderr) = Inr (jobs, lg)" by simp
    from queue_loop_fields [OF this] assms(2)
    show ?thesis by fastforce
  next
    case False
    show ?thesis
    proof (cases "str_contains ''jobid ='' (raw ! 0)")
      case True
      with d assms(1) ret False obtain this_job job_list where
        loop: "detail_loop fromisoformat raw (None, [], stderr_log stderr) =
                 Inr (this_job, job_list, lg)"
        and jobs: "jobs = job_list @ [this_job]"
        by (auto split: sum.splits)
      have "ids_set (None, [], stderr_log stderr)" by (simp add: ids_set_def)
      from detail_loop_ids [OF loop this] have "ids_set (this_job, job_list, lg)" .
      with jobs assms(2) have "job_id r \<noteq> None"
        by (auto simp: ids_set_def)
      with False show ?thesis by (simp add: raw_def)
    next
      case no: False
      with d assms(1) ret False have "jobs = []" by simp
      with assms(2) show ?thesis by simp
    qed
  qed
qed

lemma joblist_records_fields_example:
  "parse_joblist_output Some 0
      ''jobid jobname status pipeline\<newline>==========\<newline>123 myjob r pipelineA\<newline>'' [] =
     Inr ([Some (row_record [''123'', ''myjob'', ''r'', ''pipelineA''] :: string JobInfo)], [])
   \<and> job_id (row_record [''123'', ''myjob'', ''r'', ''pipelineA''] :: string JobInfo) \<noteq> None
   \<and> job_state (row_record [''123'', ''myjob'', ''r'', ''pipelineA''] :: string JobInfo) \<noteq> None"
proof -
  let ?out = "''jobid jobname status pipeline\<newline>==========\<newline>123 myjob r pipelineA\<newline>''"
  let ?r = "row_record [''123'', ''myjob'', ''r'', ''pipelineA''] :: string JobInfo"
  have p: "parse_joblist_output Some 0 ?out [] = Inr ([Some ?r], [])"
    unfolding parse_joblist_output_def lines_rows_a
    by (simp add: strip_def parse_queue_row_good bad_a tokens_a row_warnings_def
        MAP_STATUS_TOMATO_def del: split_ws.simps)
  have m: "Some ?r \<in> set [Some ?r]" by simp
  have s: "str_contains ''========='' (filter (\<lambda>l. l \<noteq> []) (splitlines ?out) ! 1)"
    unfolding lines_rows_a by simp
  from joblist_records_fields [OF p m] s p show ?thesis by blast
qed

lemma lines_no_status:
  "splitlines ''jobid = 1\<newline>jobname = x'' = [''jobid = 1'', ''jobname = x'']"
  by (simp add: splitlines_def islinebreak_def)

lemma parse_no_status:
  "parse_joblist_output Some 0 ''jobid = 1\<newline>jobname = x'' [] =
     Inr ([Some \<lparr>job_id = Some ''1'', title = Some ''x'', job_state = None,
                 pipeline = None, submission_time = None, dispatch_time = None,
                 finish_time = None, allocated_machines = None, raw_data = None\<rparr>], [])"
  unfolding parse_joblist_output_def lines_no_status
  by (simp add: strip_def isspace_def detail_step_def new_JobInfo_def)

lemma lines_none_entry:
  "splitlines ''a = jobid = 1\<newline>foo = bar'' = [''a = jobid = 1'', ''foo = bar'']"
  by (simp add: splitlines_def islinebreak_def)

lemma parse_none_entry:
  "parse_joblist_output Some 0 ''a = jobid = 1\<newline>foo = bar'' [] =
     Inr ([None], [UnrecognizedLine [''a'', ''jobid'', ''1''], UnrecognizedLine [''foo'', ''bar'']])"
  unfolding parse_joblist_output_def lines_none_entry
  by (simp add: strip_def isspace_def detail_step_def)

text \<open>
  C3. The claim: every record that the parser returns has a job id and a state. The
  method's own description promises a list of \<^verbatim>\<open>JobInfo\<close> objects, each with at
  least its default fields, and the branch for the queue listing always sets the state.
  The branch for the detailed report breaks it on two outputs. A report with no status
  line returns a record with a job id and no state. A report whose first line contains
  \<open>jobid =\<close> with another key opens no record, and the parser returns a list whose only
  entry is \<^verbatim>\<open>None\<close>.
\<close>

theorem joblist_records_missing_state:
  "(\<exists>r. parse_joblist_output Some 0 ''jobid = 1\<newline>jobname = x'' [] = Inr ([Some r], [])
        \<and> job_id r = Some ''1'' \<and> job_state r = None)
   \<and> parse_joblist_output Some 0 ''a = jobid = 1\<newline>foo = bar'' [] =
       Inr ([None], [UnrecognizedLine [''a'', ''jobid'', ''1''], UnrecognizedLine [''foo'', ''bar'']])"
  unfolding parse_no_status parse_none_entry by simp

subsection \<open>The lines of the detailed report\<close>

lemma split_on_nonempty: "split_on sep cur s \<noteq> []"
  by (induction s arbitrary: cur) auto

lemma str_join_Cons: "xs \<noteq> [] \<Longrightarrow> str_join sep (x # xs) = x @ sep @ str_join sep xs"
  by (cases xs) auto

lemma str_join_split_on: "str_join [sep] (split_on sep cur s) = cur @ s"
  by (induction s arbitrary: cur) (auto simp: str_join_Cons split_on_nonempty)

lemma split_on_no_sep:
  "sep \<notin> set cur \<Longrightarrow> \<forall>p \<in> set (split_on sep cur s). sep \<notin> set p"
proof (induction s arbitrary: cur)
  case Nil
  then show ?case by simp
next
  case (Cons c s)
  show ?case
    using Cons.IH [of "[]"] Cons.IH [of "cur @ [c]"] Cons.prems by simp
qed

lemma matched_key_None:
  "matched_key key = None \<longleftrightarrow>
     \<not> str_contains ''jobid'' key \<and> \<not> str_contains ''jobname'' key
     \<and> \<not> str_contains ''status'' key \<and> \<not> str_contains ''submitted at'' key
     \<and> \<not> str_contains ''executed at'' key \<and> \<not> str_contains ''completed at'' key
     \<and> \<not> str_contains ''with pipeline'' key \<and> \<not> str_contains ''with PID'' key"
  by (simp add: matched_key_def DETAIL_KEYS_def)

lemma matched_key_jobid:
  "matched_key key = Some ''jobid'' \<longleftrightarrow> str_contains ''jobid'' key"
  by (simp add: matched_key_def DETAIL_KEYS_def)

lemma matched_key_jobname:
  "matched_key key = Some ''jobname'' \<longleftrightarrow>
     \<not> str_contains ''jobid'' key \<and> str_contains ''jobname'' key"
  by (simp add: matched_key_def DETAIL_KEYS_def)

lemma matched_key_status:
  "matched_key key = Some ''status'' \<longleftrightarrow>
     \<not> str_contains ''jobid'' key \<and> \<not> str_contains ''jobname'' key
     \<and> str_contains ''status'' key"
  by (simp add: matched_key_def DETAIL_KEYS_def)

lemma matched_key_submitted:
  "matched_key key = Some ''submitted at'' \<longleftrightarrow>
     \<not> str_contains ''jobid'' key \<and> \<not> str_contains ''jobname'' key
     \<and> \<not> str_contains ''status'' key \<and> str_contains ''submitted at'' key"
  by (simp add: matched_key_def DETAIL_KEYS_def)

lemma matched_key_executed:
  "matched_key key = Some ''executed at'' \<longleftrightarrow>
     \<not> str_contains ''jobid'' key \<and> \<not> str_contains ''jobname'' key
     \<and> \<not> str_contains ''status'' key \<and> \<not> str_contains ''submitted at'' key
     \<and> str_contains ''executed at'' key"
  by (simp add: matched_key_def DETAIL_KEYS_def)

lemma matched_key_completed:
  "matched_key key = Some ''completed at'' \<longleftrightarrow>
     \<not> str_contains ''jobid'' key \<and> \<not> str_contains ''jobname'' key
     \<and> \<not> str_contains ''status'' key \<and> \<not> str_contains ''submitted at'' key
     \<and> \<not> str_contains ''executed at'' key \<and> str_contains ''completed at'' key"
  by (simp add: matched_key_def DETAIL_KEYS_def)

lemma matched_key_pipeline:
  "matched_key key = Some ''with pipeline'' \<longleftrightarrow>
     \<not> str_contains ''jobid'' key \<and> \<not> str_contains ''jobname'' key
     \<and> \<not> str_contains ''status'' key \<and> \<not> str_contains ''submitted at'' key
     \<and> \<not> str_contains ''executed at'' key \<and> \<not> str_contains ''completed at'' key
     \<and> str_contains ''with pipeline'' key"
  by (simp add: matched_key_def DETAIL_KEYS_def)

lemma matched_key_PID:
  "matched_key key = Some ''with PID'' \<longleftrightarrow>
     \<not> str_contains ''jobid'' key \<and> \<not> str_contains ''jobname'' key
     \<and> \<not> str_contains ''status'' key \<and> \<not> str_contains ''submitted at'' key
     \<and> \<not> str_contains ''executed at'' key \<and> \<not> str_contains ''completed at'' key
     \<and> \<not> str_contains ''with pipeline'' key \<and> str_contains ''with PID'' key"
  by (simp add: matched_key_def DETAIL_KEYS_def)

lemma matched_key_literal:
  "matched_key ''jobid'' = Some ''jobid''"
  "matched_key ''jobname'' = Some ''jobname''"
  "matched_key ''status'' = Some ''status''"
  "matched_key ''submitted at'' = Some ''submitted at''"
  "matched_key ''executed at'' = Some ''executed at''"
  "matched_key ''completed at'' = Some ''completed at''"
  "matched_key ''with pipeline'' = Some ''with pipeline''"
  "matched_key ''with PID'' = Some ''with PID''"
  by (simp_all add: matched_key_def DETAIL_KEYS_def)

lemma matched_key_literals: "\<forall>k \<in> set DETAIL_KEYS. matched_key k = Some k"
  unfolding DETAIL_KEYS_def by (simp add: matched_key_literal)

lemma detail_step_unrecognized:
  assumes "pieces raw_line = key # vals" and "matched_key key = None"
  shows "detail_step fromisoformat raw_line (this_job, job_list, lg) =
           Inr (this_job, job_list, lg @ [UnrecognizedLine (key # vals)])"
  using assms unfolding matched_key_None pieces_def
  by (simp add: detail_step_def)

lemma detail_step_jobid:
  assumes "pieces raw_line = key # v # others" and "matched_key key = Some ''jobid''"
  shows "detail_step fromisoformat raw_line (this_job, job_list, lg) =
           Inr (Some (new_JobInfo\<lparr>job_id := Some v\<rparr>),
                job_list @ map Some (open_records this_job), lg)"
  using assms unfolding matched_key_jobid pieces_def
  by (simp add: detail_step_def open_records_def split: option.splits)

lemma detail_step_jobname:
  assumes "pieces raw_line = key # v # others" and "matched_key key = Some ''jobname''"
  shows "detail_step fromisoformat raw_line (Some j, job_list, lg) =
           Inr (Some (j\<lparr>title := Some v\<rparr>), job_list, lg)"
  using assms unfolding matched_key_jobname pieces_def
  by (simp add: detail_step_def)

lemma detail_step_status_key:
  assumes "pieces raw_line = key # v # others" and "matched_key key = Some ''status''"
  shows "detail_step fromisoformat raw_line (Some j, job_list, lg) =
           Inr (Some (j\<lparr>job_state := Some (StateMapper v)\<rparr>), job_list,
                if MAP_STATUS_TOMATO v = None
                then lg @ [UnrecognizedJobState v (job_id j)] else lg)"
  using assms unfolding matched_key_status pieces_def
  by (simp add: detail_step_status)

lemma detail_step_submitted:
  assumes "pieces raw_line = key # v # others" and "matched_key key = Some ''submitted at''"
  shows "detail_step fromisoformat raw_line (Some j, job_list, lg) =
           (case fromisoformat v of
              None \<Rightarrow> Inr (Some j, job_list, lg @ [TimeParseError ''submission_time'' (job_id j)])
            | Some t \<Rightarrow> Inr (Some (j\<lparr>submission_time := Some t\<rparr>), job_list, lg))"
  using assms unfolding matched_key_submitted pieces_def
  by (simp add: detail_step_def set_time_def)

lemma detail_step_executed:
  assumes "pieces raw_line = key # v # others" and "matched_key key = Some ''executed at''"
  shows "detail_step fromisoformat raw_line (Some j, job_list, lg) =
           (case fromisoformat v of
              None \<Rightarrow> Inr (Some j, job_list, lg @ [TimeParseError ''dispatch_time'' (job_id j)])
            | Some t \<Rightarrow> Inr (Some (j\<lparr>dispatch_time := Some t\<rparr>), job_list, lg))"
  using assms unfolding matched_key_executed pieces_def
  by (simp add: detail_step_def set_time_def)

lemma detail_step_completed:
  assumes "pieces raw_line = key # v # others" and "matched_key key = Some ''completed at''"
  shows "detail_step fromisoformat raw_line (Some j, job_list, lg) =
           (case fromisoformat v of
              None \<Rightarrow> Inr (Some j, job_list, lg @ [TimeParseError ''finished_time'' (job_id j)])
            | Some t \<Rightarrow> Inr (Some (j\<lparr>finish_time := Some t\<rparr>), job_list, lg))"
  using assms unfolding matched_key_completed pieces_def
  by (simp add: detail_step_def set_time_def)

lemma detail_step_pipeline:
  assumes "pieces raw_line = key # v # others" and "matched_key key = Some ''with pipeline''"
  shows "detail_step fromisoformat raw_line (Some j, job_list, lg) =
           Inr (Some (j\<lparr>allocated_machines := Some [v]\<rparr>), job_list, lg)"
  using assms unfolding matched_key_pipeline pieces_def
  by (simp add: detail_step_def)

lemma detail_step_PID:
  assumes "pieces raw_line = key # vals" and "matched_key key = Some ''with PID''"
  shows "detail_step fromisoformat raw_line (this_job, job_list, lg) =
           Inr (this_job, job_list, lg)"
  using assms unfolding matched_key_PID pieces_def
  by (simp add: detail_step_def)

text \<open>
  Amended C6. Every line of the detailed report is split at each \<open>=\<close> (not only the
  first) and every piece is trimmed; there is always a first piece, the key, and the value
  is the second piece. The key selects the first key word that it contains (a test for a
  substring, with the case of the letters kept), in the order jobid, jobname, status,
  submitted at, executed at, completed at, with pipeline, with PID; a key that is one of
  these words selects itself. A line whose key contains none of them adds a warning to
  the log and changes nothing else, and the parse goes on.
\<close>

theorem detail_line_dispatch:
  "pieces raw_line \<noteq> []
   \<and> (\<forall>p \<in> set (split_on CHR ''='' [] raw_line). CHR ''='' \<notin> set p)
   \<and> str_join ''='' (split_on CHR ''='' [] raw_line) = raw_line
   \<and> (\<forall>k \<in> set DETAIL_KEYS. matched_key k = Some k)
   \<and> (pieces raw_line = key # vals \<and> matched_key key = None \<longrightarrow>
        detail_step fromisoformat raw_line (this_job, job_list, lg) =
          Inr (this_job, job_list, lg @ [UnrecognizedLine (key # vals)]))
   \<and> (pieces raw_line = key # vals \<and> matched_key key = Some ''with PID'' \<longrightarrow>
        detail_step fromisoformat raw_line (this_job, job_list, lg) =
          Inr (this_job, job_list, lg))
   \<and> (pieces raw_line = key # v # others \<and> matched_key key = Some ''jobid'' \<longrightarrow>
        detail_step fromisoformat raw_line (this_job, job_list, lg) =
          Inr (Some (new_JobInfo\<lparr>job_id := Some v\<rparr>),
               job_list @ map Some (open_records this_job), lg))
   \<and> (pieces raw_line = key # v # others \<and> matched_key key = Some ''jobname'' \<longrightarrow>
        detail_step fromisoformat raw_line (Some j, job_list, lg) =
          Inr (Some (j\<lparr>title := Some v\<rparr>), job_list, lg))
   \<and> (pieces raw_line = key # v # others \<and> matched_key key = Some ''status'' \<longrightarrow>
        detail_step fromisoformat raw_line (Some j, job_list, lg) =
          Inr (Some (j\<lparr>job_state := Some (StateMapper v)\<rparr>), job_list,
               if MAP_STATUS_TOMATO v = None
               then lg @ [UnrecognizedJobState v (job_id j)] else lg))
   \<and> (pieces raw_line = key # v # others \<and> matched_key key = Some ''submitted at'' \<longrightarrow>
        detail_step fromisoformat raw_line (Some j, job_list, lg) =
          (case fromisoformat v of
             None \<Rightarrow> Inr (Some j, job_list, lg @ [TimeParseError ''submission_time'' (job_id j)])
           | Some t \<Rightarrow> Inr (Some (j\<lparr>submission_time := Some t\<rparr>), job_list, lg)))
   \<and> (pieces raw_line = key # v # others \<and> matched_key key = Some ''executed at'' \<longrightarrow>
        detail_step fromisoformat raw_line (Some j, job_list, lg) =
          (case fromisoformat v of
             None \<Rightarrow> Inr (Some j, job_list, lg @ [TimeParseError ''dispatch_time'' (job_id j)])
           | Some t \<Rightarrow> Inr (Some (j\<lparr>dispatch_time := Some t\<rparr>), job_list, lg)))
   \<and> (pieces raw_line = key # v # others \<and> matched_key key = Some ''completed at'' \<longrightarrow>
        detail_step fromisoformat raw_line (Some j, job_list, lg) =
          (case fromisoformat v of
             None \<Rightarrow> Inr (Some j, job_list, lg @ [TimeParseError ''finished_time'' (job_id j)])
           | Some t \<Rightarrow> Inr (Some (j\<lparr>finish_time := Some t\<rparr>), job_list, lg)))
   \<and> (pieces raw_line = key # v # others \<and> matched_key key = Some ''with pipeline'' \<longrightarrow>
        detail_step fromisoformat raw_line (Some j, job_list, lg) =
          Inr (Some (j\<lparr>allocated_machines := Some [v]\<rparr>), job_list, lg))"
proof -
  have "pieces raw_line \<noteq> []"
    by (simp add: pieces_def split_on_nonempty)
  moreover have "\<forall>p \<in> set (split_on CHR ''='' [] raw_line). CHR ''='' \<notin> set p"
    by (rule split_on_no_sep) simp
  moreover have "str_join ''='' (split_on CHR ''='' [] raw_line) = raw_line"
    using str_join_split_on [of "CHR ''=''" "[]" raw_line] by simp
  ultimately show ?thesis
    using matched_key_literals
    by (simp add: detail_step_unrecognized detail_step_PID detail_step_jobid
        detail_step_jobname detail_step_status_key detail_step_submitted
        detail_step_executed detail_step_completed detail_step_pipeline)
qed

lemma pieces_examples:
  "pieces ''foo = bar'' = [''foo'', ''bar'']"
  "pieces ''with PID = 41'' = [''with PID'', ''41'']"
  "pieces ''jobid = 7'' = [''jobid'', ''7'']"
  "pieces ''jobname = x'' = [''jobname'', ''x'']"
  "pieces ''status = r'' = [''status'', ''r'']"
  "pieces ''submitted at = T'' = [''submitted at'', ''T'']"
  "pieces ''executed at = T'' = [''executed at'', ''T'']"
  "pieces ''completed at = T'' = [''completed at'', ''T'']"
  "pieces ''with pipeline = p'' = [''with pipeline'', ''p'']"
  "pieces ''xstatus = r'' = [''xstatus'', ''r'']"
  "pieces ''jobname = a=b'' = [''jobname'', ''a'', ''b'']"
  by (simp_all add: pieces_def strip_def isspace_def)

lemma matched_key_foo: "matched_key ''foo'' = None"
  by (simp add: matched_key_def DETAIL_KEYS_def)

lemma matched_key_xstatus: "matched_key ''xstatus'' = Some ''status''"
  by (simp add: matched_key_def DETAIL_KEYS_def)

theorem detail_line_dispatch_witness:
  "detail_step Some ''foo = bar'' (Some (new_JobInfo\<lparr>job_id := Some ''1''\<rparr>), [], []) =
     Inr (Some (new_JobInfo\<lparr>job_id := Some ''1''\<rparr>), [], [UnrecognizedLine [''foo'', ''bar'']])
   \<and> detail_step Some ''with PID = 41'' (Some (new_JobInfo\<lparr>job_id := Some ''1''\<rparr>), [], []) =
     Inr (Some (new_JobInfo\<lparr>job_id := Some ''1''\<rparr>), [], [])
   \<and> detail_step Some ''jobid = 7'' (Some (new_JobInfo\<lparr>job_id := Some ''1''\<rparr>), [], []) =
     Inr (Some (new_JobInfo\<lparr>job_id := Some ''7''\<rparr>),
          [Some (new_JobInfo\<lparr>job_id := Some ''1''\<rparr>)], [])
   \<and> detail_step Some ''jobname = x'' (Some (new_JobInfo\<lparr>job_id := Some ''1''\<rparr>), [], []) =
     Inr (Some (new_JobInfo\<lparr>job_id := Some ''1'', title := Some ''x''\<rparr>), [], [])
   \<and> detail_step Some ''status = r'' (Some (new_JobInfo\<lparr>job_id := Some ''1''\<rparr>), [], []) =
     Inr (Some (new_JobInfo\<lparr>job_id := Some ''1'', job_state := Some RUNNING\<rparr>), [], [])
   \<and> detail_step Some ''submitted at = T'' (Some (new_JobInfo\<lparr>job_id := Some ''1''\<rparr>), [], []) =
     Inr (Some (new_JobInfo\<lparr>job_id := Some ''1'', submission_time := Some ''T''\<rparr>), [], [])
   \<and> detail_step Some ''executed at = T'' (Some (new_JobInfo\<lparr>job_id := Some ''1''\<rparr>), [], []) =
     Inr (Some (new_JobInfo\<lparr>job_id := Some ''1'', dispatch_time := Some ''T''\<rparr>), [], [])
   \<and> detail_step Some ''completed at = T'' (Some (new_JobInfo\<lparr>job_id := Some ''1''\<rparr>), [], []) =
     Inr (Some (new_JobInfo\<lparr>job_id := Some ''1'', finish_time := Some ''T''\<rparr>), [], [])
   \<and> detail_step Some ''with pipeline = p'' (Some (new_JobInfo\<lparr>job_id := Some ''1''\<rparr>), [], []) =
     Inr (Some (new_JobInfo\<lparr>job_id := Some ''1'', allocated_machines := Some [''p'']\<rparr>), [], [])"
proof -
  let ?j = "new_JobInfo\<lparr>job_id := Some ''1''\<rparr> :: string JobInfo"
  note t = detail_line_dispatch [where fromisoformat = Some and this_job = "Some ?j"
      and j = ?j and job_list = "[]" and lg = "[]"]
  have "detail_step Some ''foo = bar'' (Some ?j, [], []) =
      Inr (Some ?j, [], [UnrecognizedLine [''foo'', ''bar'']])"
    using t [of "''foo = bar''" "''foo''" "[''bar'']" "''bar''" "[]"]
    unfolding pieces_examples by (simp add: matched_key_foo)
  moreover have "detail_step Some ''with PID = 41'' (Some ?j, [], []) = Inr (Some ?j, [], [])"
    using t [of "''with PID = 41''" "''with PID''" "[''41'']" "''41''" "[]"]
    unfolding pieces_examples by (simp add: matched_key_literal)
  moreover have "detail_step Some ''jobid = 7'' (Some ?j, [], []) =
      Inr (Some (new_JobInfo\<lparr>job_id := Some ''7''\<rparr>), [Some ?j], [])"
    using t [of "''jobid = 7''" "''jobid''" "[''7'']" "''7''" "[]"]
    unfolding pieces_examples by (simp add: matched_key_literal open_records_def)
  moreover have "detail_step Some ''jobname = x'' (Some ?j, [], []) =
      Inr (Some (?j\<lparr>title := Some ''x''\<rparr>), [], [])"
    using t [of "''jobname = x''" "''jobname''" "[''x'']" "''x''" "[]"]
    unfolding pieces_examples by (simp add: matched_key_literal)
  moreover have "detail_step Some ''status = r'' (Some ?j, [], []) =
      Inr (Some (?j\<lparr>job_state := Some RUNNING\<rparr>), [], [])"
    using t [of "''status = r''" "''status''" "[''r'']" "''r''" "[]"]
    unfolding pieces_examples
    by (simp add: matched_key_literal StateMapper_def MAP_STATUS_TOMATO_def)
  moreover have "detail_step Some ''submitted at = T'' (Some ?j, [], []) =
      Inr (Some (?j\<lparr>submission_time := Some ''T''\<rparr>), [], [])"
    using t [of "''submitted at = T''" "''submitted at''" "[''T'']" "''T''" "[]"]
    unfolding pieces_examples by (simp add: matched_key_literal)
  moreover have "detail_step Some ''executed at = T'' (Some ?j, [], []) =
      Inr (Some (?j\<lparr>dispatch_time := Some ''T''\<rparr>), [], [])"
    using t [of "''executed at = T''" "''executed at''" "[''T'']" "''T''" "[]"]
    unfolding pieces_examples by (simp add: matched_key_literal)
  moreover have "detail_step Some ''completed at = T'' (Some ?j, [], []) =
      Inr (Some (?j\<lparr>finish_time := Some ''T''\<rparr>), [], [])"
    using t [of "''completed at = T''" "''completed at''" "[''T'']" "''T''" "[]"]
    unfolding pieces_examples by (simp add: matched_key_literal)
  moreover have "detail_step Some ''with pipeline = p'' (Some ?j, [], []) =
      Inr (Some (?j\<lparr>allocated_machines := Some [''p'']\<rparr>), [], [])"
    using t [of "''with pipeline = p''" "''with pipeline''" "[''p'']" "''p''" "[]"]
    unfolding pieces_examples by (simp add: matched_key_literal)
  ultimately show ?thesis by simp
qed

text \<open>
  The claim C6 as it is written fails on two lines: the key \<open>xstatus\<close> is not one of the
  eight key words, and the line sets the state instead of being skipped; and the value of
  \<open>jobname = a=b\<close> is \<open>a\<close>, the text between the first two \<open>=\<close>.
\<close>

theorem detail_line_dispatch_counterexample:
  "''xstatus'' \<notin> set DETAIL_KEYS
   \<and> detail_step Some ''xstatus = r'' (Some (new_JobInfo\<lparr>job_id := Some ''1''\<rparr>), [], []) =
       Inr (Some (new_JobInfo\<lparr>job_id := Some ''1'', job_state := Some RUNNING\<rparr>), [], [])
   \<and> detail_step Some ''jobname = a=b'' (Some (new_JobInfo\<lparr>job_id := Some ''1''\<rparr>), [], []) =
       Inr (Some (new_JobInfo\<lparr>job_id := Some ''1'', title := Some ''a''\<rparr>), [], [])"
proof -
  let ?j = "new_JobInfo\<lparr>job_id := Some ''1''\<rparr> :: string JobInfo"
  have "''xstatus'' \<notin> set DETAIL_KEYS" by (simp add: DETAIL_KEYS_def)
  moreover have "detail_step Some ''xstatus = r'' (Some ?j, [], []) =
      Inr (Some (?j\<lparr>job_state := Some RUNNING\<rparr>), [], [])"
    using detail_step_status_key [of "''xstatus = r''" "''xstatus''" "''r''" "[]" Some ?j "[]" "[]"]
    unfolding pieces_examples
    by (simp add: matched_key_xstatus StateMapper_def MAP_STATUS_TOMATO_def)
  moreover have "detail_step Some ''jobname = a=b'' (Some ?j, [], []) =
      Inr (Some (?j\<lparr>title := Some ''a''\<rparr>), [], [])"
    using detail_step_jobname [of "''jobname = a=b''" "''jobname''" "''a''" "[''b'']" Some ?j "[]" "[]"]
    unfolding pieces_examples by (simp add: matched_key_literal)
  ultimately show ?thesis by simp
qed

subsection \<open>The records of the detailed report\<close>

lemma opens_record_iff:
  "pieces raw_line = key # vals \<Longrightarrow> opens_record raw_line = str_contains ''jobid'' key"
  by (simp add: opens_record_def)

lemma open_records_simps:
  "open_records None = []" "open_records (Some j) = [j]"
  by (simp_all add: open_records_def)

lemma set_time_job_ids:
  assumes "set_time fromisoformat name upd vals (this_job, job_list, lg) = Inr (tj, jl, lg')"
    and "\<And>t j. job_id (upd t j) = job_id j"
  shows "jl = job_list \<and> map job_id (open_records tj) = map job_id (open_records this_job)
         \<and> tj \<noteq> None"
  using assms
  by (auto simp: set_time_def open_records_def split: option.splits list.splits)

lemma detail_step_job_ids:
  assumes "detail_step fromisoformat raw_line (this_job, map Some rs, lg) = Inr (tj, jl, lg')"
  shows "\<exists>rs'. jl = map Some rs'
           \<and> map job_id (rs' @ open_records tj) =
               map job_id (rs @ open_records this_job)
                 @ (if opens_record raw_line then [line_value raw_line] else [])"
proof -
  obtain key vals where p: "pieces raw_line = key # vals"
    using split_on_nonempty [of "CHR ''=''" "[]" raw_line]
    by (cases "pieces raw_line") (auto simp: pieces_def)
  show ?thesis
  proof (cases "str_contains ''jobid'' key")
    case True
    with assms p obtain v others where v: "vals = v # others"
      by (cases vals) (auto simp: detail_step_def pieces_def)
    from True have "matched_key key = Some ''jobid''" by (simp add: matched_key_jobid)
    from detail_step_jobid [OF p [unfolded v] this, of fromisoformat this_job "map Some rs" lg]
      assms
    have "tj = Some (new_JobInfo\<lparr>job_id := Some v\<rparr>)"
      "jl = map Some (rs @ open_records this_job)"
      by auto
    then show ?thesis
      using True p v
      by (intro exI [of _ "rs @ open_records this_job"])
         (simp add: opens_record_iff line_value_def open_records_simps)
  next
    case False
    then have no: "\<not> opens_record raw_line" using p by (simp add: opens_record_iff)
    have "jl = map Some rs \<and> map job_id (open_records tj) = map job_id (open_records this_job)"
      using assms p False
      unfolding detail_step_def pieces_def
      by (auto split: list.splits option.splits if_splits simp: open_records_def
          dest!: set_time_job_ids)
    then show ?thesis using no by auto
  qed
qed

lemma detail_loop_job_ids:
  "detail_loop fromisoformat ls (this_job, map Some rs, lg) = Inr (tj, jl, lg') \<Longrightarrow>
   \<exists>rs'. jl = map Some rs'
     \<and> map job_id (rs' @ open_records tj) =
         map job_id (rs @ open_records this_job) @ map line_value (filter opens_record ls)"
proof (induction ls arbitrary: this_job rs lg)
  case Nil
  then show ?case by auto
next
  case (Cons l ls)
  from Cons.prems obtain tj1 jl1 lg1 where
    step: "detail_step fromisoformat l (this_job, map Some rs, lg) = Inr (tj1, jl1, lg1)"
    and rest: "detail_loop fromisoformat ls (tj1, jl1, lg1) = Inr (tj, jl, lg')"
    by (auto split: sum.splits)
  from detail_step_job_ids [OF step] obtain rs1 where
    rs1: "jl1 = map Some rs1"
      "map job_id (rs1 @ open_records tj1) =
         map job_id (rs @ open_records this_job)
           @ (if opens_record l then [line_value l] else [])"
    by blast
  from Cons.IH [OF rest [unfolded rs1(1)]] obtain rs' where
    "jl = map Some rs'"
    "map job_id (rs' @ open_records tj) =
       map job_id (rs1 @ open_records tj1) @ map line_value (filter opens_record ls)"
    by blast
  with rs1(2) show ?case by auto
qed

lemma detail_step_open:
  assumes "detail_step fromisoformat raw_line (this_job, job_list, lg) = Inr (tj, jl, lg')"
    and "this_job \<noteq> None \<or> opens_record raw_line"
  shows "tj \<noteq> None"
proof -
  obtain key vals where p: "pieces raw_line = key # vals"
    using split_on_nonempty [of "CHR ''=''" "[]" raw_line]
    by (cases "pieces raw_line") (auto simp: pieces_def)
  show ?thesis
    using assms p unfolding opens_record_iff [OF p]
    unfolding detail_step_def pieces_def
    by (auto split: list.splits option.splits if_splits dest!: set_time_job_ids)
qed

lemma detail_loop_open:
  "detail_loop fromisoformat ls (this_job, job_list, lg) = Inr (tj, jl, lg') \<Longrightarrow>
   this_job \<noteq> None \<or> (\<exists>l \<in> set ls. opens_record l) \<Longrightarrow> tj \<noteq> None"
proof (induction ls arbitrary: this_job job_list lg)
  case Nil
  then show ?case by auto
next
  case (Cons l ls)
  from Cons.prems(1) obtain tj1 jl1 lg1 where
    step: "detail_step fromisoformat l (this_job, job_list, lg) = Inr (tj1, jl1, lg1)"
    and rest: "detail_loop fromisoformat ls (tj1, jl1, lg1) = Inr (tj, jl, lg')"
    by (auto split: sum.splits)
  have "tj1 \<noteq> None \<or> (\<exists>l \<in> set ls. opens_record l)"
    using Cons.prems(2) detail_step_open [OF step] by auto
  from Cons.IH [OF rest this] show ?case .
qed

lemma detail_step_total:
  assumes "this_job \<noteq> None \<or> opens_record raw_line" and "2 \<le> length (pieces raw_line)"
  shows "\<exists>tj jl lg'. detail_step fromisoformat raw_line (this_job, job_list, lg) =
           Inr (tj, jl, lg') \<and> tj \<noteq> None"
proof -
  obtain key v others where p: "pieces raw_line = key # v # others"
    using assms(2) by (cases "pieces raw_line"; cases "tl (pieces raw_line)") auto
  have "\<exists>st'. detail_step fromisoformat raw_line (this_job, job_list, lg) = Inr st'"
    using assms(1) p unfolding opens_record_iff [OF p]
    unfolding detail_step_def pieces_def set_time_def
    by (auto split: option.splits)
  then obtain tj jl lg' where
    s: "detail_step fromisoformat raw_line (this_job, job_list, lg) = Inr (tj, jl, lg')"
    by (metis prod_cases3)
  from detail_step_open [OF s assms(1)] s show ?thesis by blast
qed

lemma detail_loop_total:
  "this_job \<noteq> None \<or> (ls \<noteq> [] \<and> opens_record (hd ls)) \<Longrightarrow>
   \<forall>l \<in> set ls. 2 \<le> length (pieces l) \<Longrightarrow>
   \<exists>st'. detail_loop fromisoformat ls (this_job, job_list, lg) = Inr st'"
proof (induction ls arbitrary: this_job job_list lg)
  case Nil
  then show ?case by simp
next
  case (Cons l ls)
  have "this_job \<noteq> None \<or> opens_record l" using Cons.prems(1) by auto
  moreover have "2 \<le> length (pieces l)" using Cons.prems(2) by simp
  ultimately obtain tj jl lg' where
    step: "detail_step fromisoformat l (this_job, job_list, lg) = Inr (tj, jl, lg')"
    and "tj \<noteq> None"
    using detail_step_total by blast
  then have "\<exists>st'. detail_loop fromisoformat ls (tj, jl, lg') = Inr st'"
    using Cons.IH [of tj jl lg'] Cons.prems(2) by simp
  with step show ?case by simp
qed

lemma detailed_layout_eq:
  assumes raw: "jobdata_raw = filter (\<lambda>l. l \<noteq> []) (splitlines stdout)"
    and len: "2 \<le> length jobdata_raw"
    and layout: "\<not> str_contains ''========='' (jobdata_raw ! 1)"
      "str_contains ''jobid ='' (jobdata_raw ! 0)"
  shows "parse_joblist_output fromisoformat 0 stdout stderr =
     (case detail_loop fromisoformat jobdata_raw (None, [], stderr_log stderr) of
        Inl e \<Rightarrow> Inl e
      | Inr (this_job, job_list, lg) \<Rightarrow> Inr (job_list @ [this_job], lg))"
  using joblist_dispatch [OF raw len, of fromisoformat stderr] layout by simp

lemma detailed_records_ids:
  assumes loop: "detail_loop fromisoformat ls (None, [], lg0) = Inr (tj, jl, lg)"
    and opened: "\<exists>l \<in> set ls. opens_record l"
  shows "\<exists>recs. jl @ [tj] = map Some recs
            \<and> map job_id recs = map line_value (filter opens_record ls)"
proof -
  from detail_loop_open [OF loop] opened obtain r where tj: "tj = Some r" by auto
  have "detail_loop fromisoformat ls (None, map Some [], lg0) = Inr (tj, jl, lg)"
    using loop by simp
  from detail_loop_job_ids [OF this]
  have "\<exists>rs'. jl = map Some rs'
          \<and> map job_id (rs' @ open_records tj) = map line_value (filter opens_record ls)"
    by (simp add: open_records_simps)
  then obtain rs' where
    rs: "jl = map Some rs'"
      "map job_id (rs' @ open_records tj) = map line_value (filter opens_record ls)"
    by (elim exE conjE)
  show ?thesis
    using tj rs
    by (intro exI [of _ "rs' @ [r]"]) (simp add: open_records_simps)
qed

lemma jobid_key_opens: "jobid_key l \<Longrightarrow> opens_record l"
  by (auto simp: jobid_key_def opens_record_def split: list.splits)

text \<open>
  Amended C5. In the detailed report every line whose key contains \<open>jobid\<close> appends
  the open record (if there is one) to the list and opens a new record with the value of
  the line as job id; the record that is open at the end of the input is appended last.
  So a parse that returns, of a report in which some line opens a record, returns exactly
  one record per line whose key contains \<open>jobid\<close>, in order and with the job id of that
  line; when every such line has the key \<open>jobid\<close> itself, that is one record per
  \<open>jobid\<close> key. The parse does return when the first line opens a record and every
  line has a \<open>=\<close>.
\<close>

theorem detailed_report_records:
  assumes raw: "jobdata_raw = filter (\<lambda>l. l \<noteq> []) (splitlines stdout)"
    and len: "2 \<le> length jobdata_raw"
    and layout: "\<not> str_contains ''========='' (jobdata_raw ! 1)"
      "str_contains ''jobid ='' (jobdata_raw ! 0)"
    and opened: "\<exists>l \<in> set jobdata_raw. opens_record l"
  shows "(\<forall>jobs lg. parse_joblist_output fromisoformat 0 stdout stderr = Inr (jobs, lg) \<longrightarrow>
            (\<exists>recs. jobs = map Some recs
               \<and> map job_id recs = map line_value (filter opens_record jobdata_raw)
               \<and> ((\<forall>l \<in> set jobdata_raw. opens_record l \<longrightarrow> jobid_key l) \<longrightarrow>
                    length recs = length (filter jobid_key jobdata_raw))))
    \<and> (opens_record (jobdata_raw ! 0) \<and> (\<forall>l \<in> set jobdata_raw. 2 \<le> length (pieces l)) \<longrightarrow>
         (\<exists>jobs lg. parse_joblist_output fromisoformat 0 stdout stderr = Inr (jobs, lg)))
    \<and> (\<forall>l key v others this_job job_list lg.
          opens_record l \<and> pieces l = key # v # others \<longrightarrow>
          detail_step fromisoformat l (this_job, job_list, lg) =
            Inr (Some (new_JobInfo\<lparr>job_id := Some v\<rparr>),
                 job_list @ (case this_job of None \<Rightarrow> [] | Some j \<Rightarrow> [Some j]), lg))"
proof (intro conjI allI impI)
  note d = detailed_layout_eq [OF raw len layout, of fromisoformat stderr]
  {
    fix jobs lg
    assume ok: "parse_joblist_output fromisoformat 0 stdout stderr = Inr (jobs, lg)"
    then obtain tj jl where
      loop: "detail_loop fromisoformat jobdata_raw (None, [], stderr_log stderr) =
               Inr (tj, jl, lg)"
      and jobs: "jobs = jl @ [tj]"
      unfolding d by (auto split: sum.splits)
    from detailed_records_ids [OF loop opened] jobs obtain recs where
      recs: "jobs = map Some recs"
        "map job_id recs = map line_value (filter opens_record jobdata_raw)"
      by auto
    have "length recs = length (filter jobid_key jobdata_raw)"
      if lit: "\<forall>l \<in> set jobdata_raw. opens_record l \<longrightarrow> jobid_key l"
    proof -
      have "filter opens_record jobdata_raw = filter jobid_key jobdata_raw"
        using lit jobid_key_opens by (intro filter_cong) auto
      with recs(2) have "length (map job_id recs) = length (filter jobid_key jobdata_raw)"
        by simp
      then show ?thesis by simp
    qed
    with recs
    show "\<exists>recs. jobs = map Some recs
            \<and> map job_id recs = map line_value (filter opens_record jobdata_raw)
            \<and> ((\<forall>l \<in> set jobdata_raw. opens_record l \<longrightarrow> jobid_key l) \<longrightarrow>
                 length recs = length (filter jobid_key jobdata_raw))"
      by blast
  }
  {
    assume a: "opens_record (jobdata_raw ! 0) \<and> (\<forall>l \<in> set jobdata_raw. 2 \<le> length (pieces l))"
    have ne: "jobdata_raw \<noteq> []" using len by auto
    then have "hd jobdata_raw = jobdata_raw ! 0" by (simp add: hd_conv_nth)
    with a ne have "jobdata_raw \<noteq> [] \<and> opens_record (hd jobdata_raw)" by simp
    then have "\<exists>st'. detail_loop fromisoformat jobdata_raw (None, [], stderr_log stderr) = Inr st'"
      using a by (intro detail_loop_total) simp_all
    then obtain tj jl lg where
      "detail_loop fromisoformat jobdata_raw (None, [], stderr_log stderr) = Inr (tj, jl, lg)"
      by (metis prod_cases3)
    then show "\<exists>jobs lg. parse_joblist_output fromisoformat 0 stdout stderr = Inr (jobs, lg)"
      unfolding d by simp
  }
  {
    fix l key v others this_job job_list lg
    assume a: "opens_record l \<and> pieces l = key # v # others"
    then have p: "pieces l = key # v # others" by simp
    from a have k: "matched_key key = Some ''jobid''"
      by (simp add: matched_key_jobid opens_record_iff [OF p])
    from detail_step_jobid [OF p k, of fromisoformat this_job job_list lg]
    show "detail_step fromisoformat l (this_job, job_list, lg) =
            Inr (Some (new_JobInfo\<lparr>job_id := Some v\<rparr>),
                 job_list @ (case this_job of None \<Rightarrow> [] | Some j \<Rightarrow> [Some j]), lg)"
      by (cases this_job) (simp_all add: open_records_simps)
  }
qed

lemma lines_two_blocks:
  "splitlines ''jobid = 1\<newline>status = r\<newline>jobid = 2\<newline>status = q\<newline>'' =
     [''jobid = 1'', ''status = r'', ''jobid = 2'', ''status = q'']"
  by (simp add: splitlines_def islinebreak_def)

lemma pieces_two_blocks:
  "pieces ''jobid = 1'' = [''jobid'', ''1'']"
  "pieces ''jobid = 2'' = [''jobid'', ''2'']"
  "pieces ''status = q'' = [''status'', ''q'']"
  by (simp_all add: pieces_def strip_def isspace_def)

lemma opens_two_blocks:
  "opens_record ''jobid = 1''" "opens_record ''jobid = 2''"
  "\<not> opens_record ''status = r''" "\<not> opens_record ''status = q''"
  unfolding opens_record_def pieces_two_blocks pieces_examples by simp_all

lemma values_two_blocks:
  "line_value ''jobid = 1'' = Some ''1''" "line_value ''jobid = 2'' = Some ''2''"
  unfolding line_value_def pieces_two_blocks by simp_all

theorem detailed_report_records_witness:
  "\<exists>recs lg. parse_joblist_output Some 0
        ''jobid = 1\<newline>status = r\<newline>jobid = 2\<newline>status = q\<newline>'' [] =
          Inr (map Some recs, lg)
      \<and> map job_id recs = [Some ''1'', Some ''2''] \<and> length recs = 2"
proof -
  let ?out = "''jobid = 1\<newline>status = r\<newline>jobid = 2\<newline>status = q\<newline>''"
  let ?raw = "[''jobid = 1'', ''status = r'', ''jobid = 2'', ''status = q'']"
  have raw: "?raw = filter (\<lambda>l. l \<noteq> []) (splitlines ?out)"
    unfolding lines_two_blocks by simp
  have len: "2 \<le> length ?raw" by simp
  have l1: "\<not> str_contains ''========='' (?raw ! 1)" by simp
  have l0: "str_contains ''jobid ='' (?raw ! 0)" by simp
  have op: "\<exists>l \<in> set ?raw. opens_record l" by (simp add: opens_two_blocks)
  note t = detailed_report_records [OF raw len l1 l0 op, of Some "[]"]
  have first: "opens_record (?raw ! 0)" by (simp add: opens_two_blocks)
  have all: "\<forall>l \<in> set ?raw. 2 \<le> length (pieces l)"
    by (simp add: pieces_two_blocks pieces_examples)
  from t first all obtain jobs lg where
    p: "parse_joblist_output Some 0 ?out [] = Inr (jobs, lg)" by blast
  with t obtain recs where
    r: "jobs = map Some recs" "map job_id recs = map line_value (filter opens_record ?raw)"
    by blast
  have "map line_value (filter opens_record ?raw) = [Some ''1'', Some ''2'']"
    by (simp add: opens_two_blocks values_two_blocks)
  with r have ids: "map job_id recs = [Some ''1'', Some ''2'']" by simp
  then have "length (map job_id recs) = 2" by simp
  then have "length recs = 2" by simp
  with p r(1) ids show ?thesis
    by (intro exI [of _ recs] exI [of _ lg]) simp
qed

text \<open>
  The claim C5 as it is written fails on a report with two \<open>jobid\<close> keys and a line
  \<open>old jobid = 0\<close> between them: that line has another key, and it closes the first
  record and opens one of its own, so the parser returns three records.
\<close>

lemma lines_three_records:
  "splitlines ''jobid = 1\<newline>status = r\<newline>old jobid = 0\<newline>jobid = 2\<newline>status = q'' =
     [''jobid = 1'', ''status = r'', ''old jobid = 0'', ''jobid = 2'', ''status = q'']"
  by (simp add: splitlines_def islinebreak_def)

lemma pieces_old_jobid: "pieces ''old jobid = 0'' = [''old jobid'', ''0'']"
  by (simp add: pieces_def strip_def isspace_def)

lemma jobid_keys_three_records:
  "jobid_key ''jobid = 1''" "\<not> jobid_key ''status = r''" "\<not> jobid_key ''old jobid = 0''"
  "jobid_key ''jobid = 2''" "\<not> jobid_key ''status = q''"
  unfolding jobid_key_def pieces_two_blocks pieces_examples pieces_old_jobid by simp_all

lemma steps_three_records:
  "detail_step Some ''jobid = 1'' (None, [], []) =
     Inr (Some (new_JobInfo\<lparr>job_id := Some ''1''\<rparr>), [], [])"
  "detail_step Some ''status = r'' (Some (new_JobInfo\<lparr>job_id := Some ''1''\<rparr>), [], []) =
     Inr (Some (new_JobInfo\<lparr>job_id := Some ''1'', job_state := Some RUNNING\<rparr>), [], [])"
  "detail_step Some ''old jobid = 0''
     (Some (new_JobInfo\<lparr>job_id := Some ''1'', job_state := Some RUNNING\<rparr>), [], []) =
     Inr (Some (new_JobInfo\<lparr>job_id := Some ''0''\<rparr>),
          [Some (new_JobInfo\<lparr>job_id := Some ''1'', job_state := Some RUNNING\<rparr>)], [])"
  "detail_step Some ''jobid = 2'' (Some (new_JobInfo\<lparr>job_id := Some ''0''\<rparr>),
          [Some (new_JobInfo\<lparr>job_id := Some ''1'', job_state := Some RUNNING\<rparr>)], []) =
     Inr (Some (new_JobInfo\<lparr>job_id := Some ''2''\<rparr>),
          [Some (new_JobInfo\<lparr>job_id := Some ''1'', job_state := Some RUNNING\<rparr>),
           Some (new_JobInfo\<lparr>job_id := Some ''0''\<rparr>)], [])"
  "detail_step Some ''status = q'' (Some (new_JobInfo\<lparr>job_id := Some ''2''\<rparr>),
          [Some (new_JobInfo\<lparr>job_id := Some ''1'', job_state := Some RUNNING\<rparr>),
           Some (new_JobInfo\<lparr>job_id := Some ''0''\<rparr>)], []) =
     Inr (Some (new_JobInfo\<lparr>job_id := Some ''2'', job_state := Some QUEUED\<rparr>),
          [Some (new_JobInfo\<lparr>job_id := Some ''1'', job_state := Some RUNNING\<rparr>),
           Some (new_JobInfo\<lparr>job_id := Some ''0''\<rparr>)], [])"
  by (simp_all add: detail_step_def strip_def isspace_def MAP_STATUS_TOMATO_def)

theorem detailed_report_records_counterexample:
  "length (filter jobid_key
     [''jobid = 1'', ''status = r'', ''old jobid = 0'', ''jobid = 2'', ''status = q'']) = 2
   \<and> parse_joblist_output Some 0
       ''jobid = 1\<newline>status = r\<newline>old jobid = 0\<newline>jobid = 2\<newline>status = q'' [] =
       Inr ([Some (new_JobInfo\<lparr>job_id := Some ''1'', job_state := Some RUNNING\<rparr>),
             Some (new_JobInfo\<lparr>job_id := Some ''0''\<rparr>),
             Some (new_JobInfo\<lparr>job_id := Some ''2'', job_state := Some QUEUED\<rparr>)], [])"
proof -
  have "length (filter jobid_key
     [''jobid = 1'', ''status = r'', ''old jobid = 0'', ''jobid = 2'', ''status = q'']) = 2"
    by (simp add: jobid_keys_three_records)
  moreover have "parse_joblist_output Some 0
       ''jobid = 1\<newline>status = r\<newline>old jobid = 0\<newline>jobid = 2\<newline>status = q'' [] =
       Inr ([Some (new_JobInfo\<lparr>job_id := Some ''1'', job_state := Some RUNNING\<rparr>),
             Some (new_JobInfo\<lparr>job_id := Some ''0''\<rparr>),
             Some (new_JobInfo\<lparr>job_id := Some ''2'', job_state := Some QUEUED\<rparr>)], [])"
    unfolding parse_joblist_output_def lines_three_records
    by (simp add: steps_three_records strip_def)
  ultimately show ?thesis by simp
qed

subsection \<open>The state of the returned records\<close>

lemma detail_loop_append:
  "detail_loop fromisoformat (xs @ ys) st =
     (case detail_loop fromisoformat xs st of
        Inl e \<Rightarrow> Inl e
      | Inr st' \<Rightarrow> detail_loop fromisoformat ys st')"
  by (induction xs arbitrary: st) (auto split: sum.splits)

lemma pieces_Cons: "\<exists>key vals. pieces raw_line = key # vals"
  using split_on_nonempty [of "CHR ''=''" "[]" raw_line]
  by (cases "pieces raw_line") (auto simp: pieces_def)

lemma set_time_grows:
  "set_time fromisoformat name upd vals (this_job, job_list, lg) = Inr (tj, jl, lg') \<Longrightarrow>
   jl = job_list \<and> (\<exists>e. lg' = lg @ e)"
  by (auto simp: set_time_def split: option.splits list.splits)

lemma detail_step_grows:
  assumes "detail_step fromisoformat raw_line (this_job, job_list, lg) = Inr (tj, jl, lg')"
  shows "(\<exists>e. jl = job_list @ e) \<and> (\<exists>e. lg' = lg @ e)"
  using assms unfolding detail_step_def
  by (auto split: list.splits option.splits if_splits dest!: set_time_grows)

lemma detail_loop_grows:
  "detail_loop fromisoformat ls (this_job, job_list, lg) = Inr (tj, jl, lg') \<Longrightarrow>
   (\<exists>e. jl = job_list @ e) \<and> (\<exists>e. lg' = lg @ e)"
proof (induction ls arbitrary: this_job job_list lg)
  case Nil
  then show ?case by simp
next
  case (Cons l ls)
  from Cons.prems obtain tj1 jl1 lg1 where
    step: "detail_step fromisoformat l (this_job, job_list, lg) = Inr (tj1, jl1, lg1)"
    and rest: "detail_loop fromisoformat ls (tj1, jl1, lg1) = Inr (tj, jl, lg')"
    by (auto split: sum.splits)
  from detail_step_grows [OF step] Cons.IH [OF rest] show ?case by auto
qed

lemma set_time_state:
  assumes "set_time fromisoformat name upd vals (Some j, job_list, lg) = Inr (tj, jl, lg')"
    and "\<And>t j. job_id (upd t j) = job_id j" and "\<And>t j. job_state (upd t j) = job_state j"
  shows "\<exists>j'. tj = Some j' \<and> job_id j' = job_id j \<and> job_state j' = job_state j"
  using assms by (auto simp: set_time_def split: option.splits list.splits)

lemma detail_step_other:
  assumes step: "detail_step fromisoformat raw_line (Some j, job_list, lg) = Inr (tj, jl, lg')"
    and p: "pieces raw_line = key # vals"
    and nj: "\<not> str_contains ''jobid'' key"
    and ns: "matched_key key \<noteq> Some ''status''"
  shows "\<exists>j'. tj = Some j' \<and> job_id j' = job_id j \<and> job_state j' = job_state j"
proof -
  from ns nj have c: "str_contains ''jobname'' key \<or> \<not> str_contains ''status'' key"
    by (auto simp: matched_key_status)
  show ?thesis
    using step p nj c unfolding detail_step_def pieces_def
    by (auto split: list.splits if_splits dest!: set_time_state)
qed

lemma detail_step_body:
  assumes step: "detail_step fromisoformat raw_line (Some j, job_list, lg) = Inr (tj, jl, lg')"
    and no: "\<not> opens_record raw_line"
  shows "\<exists>j'. tj = Some j' \<and> jl = job_list \<and> job_id j' = job_id j
           \<and> job_state j' = last_status (job_state j) [raw_line]
           \<and> (\<forall>key v others. pieces raw_line = key # v # others
                  \<and> matched_key key = Some ''status'' \<and> MAP_STATUS_TOMATO v = None \<longrightarrow>
                  UnrecognizedJobState v (job_id j) \<in> set lg')"
proof -
  from pieces_Cons obtain key vals where p: "pieces raw_line = key # vals" by blast
  from no p have nj: "\<not> str_contains ''jobid'' key" by (simp add: opens_record_iff)
  from nj have nk: "matched_key key \<noteq> Some ''jobid''" by (simp add: matched_key_jobid)
  have jl: "jl = job_list"
    using step p nj unfolding detail_step_def pieces_def
    by (auto split: list.splits option.splits if_splits dest!: set_time_grows)
  show ?thesis
  proof (cases "matched_key key = Some ''status''")
    case True
    then have k: "\<not> str_contains ''jobname'' key" "str_contains ''status'' key"
      by (simp_all add: matched_key_status)
    from step p nj k obtain v others where v: "vals = v # others"
      unfolding detail_step_def pieces_def by (cases vals) auto
    from detail_step_status_key [OF p [unfolded v] True, of fromisoformat j job_list lg] step
    have "tj = Some (j\<lparr>job_state := Some (StateMapper v)\<rparr>)"
      "lg' = (if MAP_STATUS_TOMATO v = None
              then lg @ [UnrecognizedJobState v (job_id j)] else lg)"
      by simp_all
    with jl p v True show ?thesis by auto
  next
    case False
    from detail_step_other [OF step p nj False] obtain j' where
      "tj = Some j'" "job_id j' = job_id j" "job_state j' = job_state j" by blast
    with jl p False show ?thesis by (auto split: list.splits)
  qed
qed

lemma last_status_append:
  "last_status st (xs @ ys) = last_status (last_status st xs) ys"
  by (induction xs arbitrary: st) simp_all

lemma detail_loop_body:
  "\<forall>l \<in> set body. \<not> opens_record l \<Longrightarrow>
   detail_loop fromisoformat body (Some j, job_list, lg) = Inr (tj, jl, lg') \<Longrightarrow>
   \<exists>j'. tj = Some j' \<and> jl = job_list \<and> job_id j' = job_id j
     \<and> job_state j' = last_status (job_state j) body
     \<and> (\<forall>l \<in> set body. \<forall>key v others. pieces l = key # v # others
            \<and> matched_key key = Some ''status'' \<and> MAP_STATUS_TOMATO v = None \<longrightarrow>
            UnrecognizedJobState v (job_id j) \<in> set lg')"
proof (induction body arbitrary: j lg)
  case Nil
  then show ?case by auto
next
  case (Cons l body)
  from Cons.prems(2) obtain tj1 jl1 lg1 where
    step: "detail_step fromisoformat l (Some j, job_list, lg) = Inr (tj1, jl1, lg1)"
    and rest: "detail_loop fromisoformat body (tj1, jl1, lg1) = Inr (tj, jl, lg')"
    by (auto split: sum.splits)
  from Cons.prems(1) have nl: "\<not> opens_record l" and nb: "\<forall>l \<in> set body. \<not> opens_record l"
    by simp_all
  from detail_step_body [OF step nl] obtain j1 where
    j1: "tj1 = Some j1" "jl1 = job_list" "job_id j1 = job_id j"
      "job_state j1 = last_status (job_state j) [l]"
    and w1: "\<forall>key v others. pieces l = key # v # others
                  \<and> matched_key key = Some ''status'' \<and> MAP_STATUS_TOMATO v = None \<longrightarrow>
                  UnrecognizedJobState v (job_id j) \<in> set lg1"
    by blast
  from Cons.IH [OF nb rest [unfolded j1(1,2)]] obtain j' where
    j': "tj = Some j'" "jl = job_list" "job_id j' = job_id j1"
      "job_state j' = last_status (job_state j1) body"
    and w: "\<forall>l \<in> set body. \<forall>key v others. pieces l = key # v # others
            \<and> matched_key key = Some ''status'' \<and> MAP_STATUS_TOMATO v = None \<longrightarrow>
            UnrecognizedJobState v (job_id j1) \<in> set lg'"
    by blast
  from detail_loop_grows [OF rest] obtain e where e: "lg' = lg1 @ e" by blast
  have st: "job_state j' = last_status (job_state j) (l # body)"
    using j'(4) j1(4) last_status_append [of "job_state j" "[l]" body] by simp
  have "\<forall>key v others. pieces l = key # v # others
                  \<and> matched_key key = Some ''status'' \<and> MAP_STATUS_TOMATO v = None \<longrightarrow>
                  UnrecognizedJobState v (job_id j) \<in> set lg'"
    using w1 e by auto
  with w j1(3) have "\<forall>x \<in> set (l # body). \<forall>key v others. pieces x = key # v # others
            \<and> matched_key key = Some ''status'' \<and> MAP_STATUS_TOMATO v = None \<longrightarrow>
            UnrecognizedJobState v (job_id j) \<in> set lg'"
    by simp
  with j'(1,2,3) j1(3) st show ?case by simp
qed

lemma detail_step_opens:
  assumes "detail_step fromisoformat raw_line (this_job, job_list, lg) = Inr (tj, jl, lg')"
    and "opens_record raw_line"
  shows "tj = Some (new_JobInfo\<lparr>job_id := line_value raw_line\<rparr>)
         \<and> jl = job_list @ map Some (open_records this_job) \<and> lg' = lg"
proof -
  from pieces_Cons obtain key vals where p: "pieces raw_line = key # vals" by blast
  from assms(2) p have k: "str_contains ''jobid'' key" by (simp add: opens_record_iff)
  from assms(1) p k obtain v others where v: "vals = v # others"
    unfolding detail_step_def pieces_def by (cases vals) auto
  from k have m: "matched_key key = Some ''jobid''" by (simp add: matched_key_jobid)
  from detail_step_jobid [OF p [unfolded v] m, of fromisoformat this_job job_list lg] assms(1)
  show ?thesis using p v by (simp add: line_value_def)
qed

lemma detail_loop_tail:
  assumes "detail_loop fromisoformat post (Some j, job_list, lg) = Inr (tj, jl, lg')"
    and "post = [] \<or> opens_record (hd post)"
  shows "(jl @ [tj]) ! length job_list = Some j \<and> (\<exists>e. lg' = lg @ e)"
proof (cases post)
  case Nil
  with assms(1) show ?thesis by simp
next
  case (Cons l rest)
  with assms(2) have o: "opens_record l" by simp
  from assms(1) Cons obtain tj1 jl1 lg1 where
    step: "detail_step fromisoformat l (Some j, job_list, lg) = Inr (tj1, jl1, lg1)"
    and rest: "detail_loop fromisoformat rest (tj1, jl1, lg1) = Inr (tj, jl, lg')"
    by (auto split: sum.splits)
  from detail_step_opens [OF step o] have
    s1: "jl1 = job_list @ [Some j]" "lg1 = lg" by (simp_all add: open_records_simps)
  from detail_loop_grows [OF rest] obtain e1 e2 where "jl = jl1 @ e1" "lg' = lg1 @ e2"
    by blast
  with s1 show ?thesis by (simp add: nth_append)
qed

lemma detail_loop_count:
  assumes "detail_loop fromisoformat pre (None, [], lg0) = Inr (tj, jl, lg)"
  shows "length jl + length (open_records tj) = length (filter opens_record pre)"
proof -
  have "detail_loop fromisoformat pre (None, map Some [], lg0) = Inr (tj, jl, lg)"
    using assms by simp
  from detail_loop_job_ids [OF this]
  have "\<exists>rs'. jl = map Some rs'
          \<and> map job_id (rs' @ open_records tj) = map line_value (filter opens_record pre)"
    by (simp add: open_records_simps)
  then obtain rs' where
    rs: "jl = map Some rs'"
      "map job_id (rs' @ open_records tj) = map line_value (filter opens_record pre)"
    by (elim exE conjE)
  from rs(2) have "length (map job_id (rs' @ open_records tj)) =
      length (map line_value (filter opens_record pre))" by simp
  with rs(1) show ?thesis by simp
qed

lemma detailed_block_state:
  fixes fromisoformat :: "string \<Rightarrow> 't option"
  assumes loop: "detail_loop fromisoformat (pre @ opener # body @ post) (None, [], lg0) =
      Inr (tj, jl, lg)"
    and o: "opens_record opener"
    and b: "\<forall>l \<in> set body. \<not> opens_record l"
    and t: "post = [] \<or> opens_record (hd post)"
  shows "\<exists>r. (jl @ [tj]) ! length (filter opens_record pre) = Some r
    \<and> job_id r = line_value opener
    \<and> job_state r = last_status None body
    \<and> (\<forall>l \<in> set body. \<forall>key v others. pieces l = key # v # others
           \<and> matched_key key = Some ''status'' \<and> MAP_STATUS_TOMATO v = None \<longrightarrow>
           UnrecognizedJobState v (line_value opener) \<in> set lg)"
proof -
  from loop obtain tj1 jl1 lg1 where
    l1: "detail_loop fromisoformat pre (None, [], lg0) = Inr (tj1, jl1, lg1)"
    and l2: "detail_loop fromisoformat (opener # body @ post) (tj1, jl1, lg1) = Inr (tj, jl, lg)"
    unfolding detail_loop_append by (auto split: sum.splits)
  from l2 obtain tj2 jl2 lg2 where
    step: "detail_step fromisoformat opener (tj1, jl1, lg1) = Inr (tj2, jl2, lg2)"
    and l3: "detail_loop fromisoformat (body @ post) (tj2, jl2, lg2) = Inr (tj, jl, lg)"
    by (auto split: sum.splits)
  let ?j0 = "new_JobInfo\<lparr>job_id := line_value opener\<rparr> :: 't JobInfo"
  from detail_step_opens [OF step o] have
    s2: "tj2 = Some ?j0" "jl2 = jl1 @ map Some (open_records tj1)" by simp_all
  from detail_loop_count [OF l1] s2(2) have
    len: "length jl2 = length (filter opens_record pre)" by simp
  from l3 obtain tj3 jl3 lg3 where
    l4: "detail_loop fromisoformat body (Some ?j0, jl2, lg2) = Inr (tj3, jl3, lg3)"
    and l5: "detail_loop fromisoformat post (tj3, jl3, lg3) = Inr (tj, jl, lg)"
    unfolding detail_loop_append s2(1) by (auto split: sum.splits)
  from detail_loop_body [OF b l4] obtain j' where
    j': "tj3 = Some j'" "jl3 = jl2" "job_id j' = job_id ?j0"
      "job_state j' = last_status (job_state ?j0) body"
    and w: "\<forall>l \<in> set body. \<forall>key v others. pieces l = key # v # others
            \<and> matched_key key = Some ''status'' \<and> MAP_STATUS_TOMATO v = None \<longrightarrow>
            UnrecognizedJobState v (job_id ?j0) \<in> set lg3"
    by blast
  from detail_loop_tail [OF l5 [unfolded j'(1,2)] t] obtain e where
    r: "(jl @ [tj]) ! length jl2 = Some j'" and e: "lg = lg3 @ e" by blast
  have id0: "job_id ?j0 = line_value opener" and st0: "job_state ?j0 = None"
    by (simp_all add: new_JobInfo_def)
  from w e have "\<forall>l \<in> set body. \<forall>key v others. pieces l = key # v # others
           \<and> matched_key key = Some ''status'' \<and> MAP_STATUS_TOMATO v = None \<longrightarrow>
           UnrecognizedJobState v (line_value opener) \<in> set lg"
    unfolding id0 by auto
  with r len j'(3,4) id0 st0 show ?thesis by simp
qed

lemma queue_rows_states:
  fixes fromisoformat :: "string \<Rightarrow> 't option"
  assumes lay: "filter (\<lambda>l. l \<noteq> []) (splitlines stdout) = header # separator # rows"
    "str_contains ''========='' separator"
    and good: "\<forall>r \<in> set rows. length (split_ws [] r) = 3 \<or> length (split_ws [] r) = 4"
  shows "\<exists>jobs lg'. parse_joblist_output fromisoformat 0 stdout stderr = Inr (jobs, lg')
           \<and> length jobs = length rows
           \<and> (\<forall>i < length rows. \<exists>r. jobs ! i = Some r
                 \<and> job_state r = Some (StateMapper (split_ws [] (rows ! i) ! 2))
                 \<and> (MAP_STATUS_TOMATO (split_ws [] (rows ! i) ! 2) = None \<longrightarrow>
                      UnrecognizedJobState (split_ws [] (rows ! i) ! 2)
                        (Some (split_ws [] (rows ! i) ! 0)) \<in> set lg'))"
proof -
  from good have "\<forall>r \<in> set rows. \<not> bad_row r" by (auto simp: bad_row_def)
  then have nf: "find bad_row rows = None" by (simp add: find_None_iff)
  let ?jobs = "map (\<lambda>r. Some (row_record (split_ws [] r) :: 't JobInfo)) rows"
  let ?lg = "stderr_log stderr @ concat (map (\<lambda>r. row_warnings (split_ws [] r)) rows)"
  have p: "parse_joblist_output fromisoformat 0 stdout stderr = Inr (?jobs, ?lg)"
    using queue_rows_columns [OF lay, of fromisoformat stderr] nf by simp
  have "\<exists>r. ?jobs ! i = Some r
          \<and> job_state r = Some (StateMapper (split_ws [] (rows ! i) ! 2))
          \<and> (MAP_STATUS_TOMATO (split_ws [] (rows ! i) ! 2) = None \<longrightarrow>
                UnrecognizedJobState (split_ws [] (rows ! i) ! 2)
                  (Some (split_ws [] (rows ! i) ! 0)) \<in> set ?lg)"
    if i: "i < length rows" for i
  proof -
    have "rows ! i \<in> set rows" using i by simp
    then have "MAP_STATUS_TOMATO (split_ws [] (rows ! i) ! 2) = None \<longrightarrow>
        UnrecognizedJobState (split_ws [] (rows ! i) ! 2)
          (Some (split_ws [] (rows ! i) ! 0)) \<in> set ?lg"
      by (auto simp: row_warnings_def intro!: bexI [of _ "rows ! i"])
    then show ?thesis using i by (simp add: row_record_def)
  qed
  with p show ?thesis by (intro exI [of _ ?jobs] exI [of _ ?lg]) simp
qed

lemma detailed_report_returns:
  fixes fromisoformat :: "string \<Rightarrow> 't option"
  assumes raw: "jobdata_raw = filter (\<lambda>l. l \<noteq> []) (splitlines stdout)"
    and len: "2 \<le> length jobdata_raw"
    and layout: "\<not> str_contains ''========='' (jobdata_raw ! 1)"
      "str_contains ''jobid ='' (jobdata_raw ! 0)"
    and first: "opens_record (jobdata_raw ! 0)"
    and all: "\<forall>l \<in> set jobdata_raw. 2 \<le> length (pieces l)"
  shows "\<exists>jobs lg. parse_joblist_output fromisoformat 0 stdout stderr = Inr (jobs, lg)"
proof -
  note d = detailed_layout_eq [OF raw len layout, of fromisoformat stderr]
  have ne: "jobdata_raw \<noteq> []" using len by auto
  then have "hd jobdata_raw = jobdata_raw ! 0" by (simp add: hd_conv_nth)
  with first ne have "jobdata_raw \<noteq> [] \<and> opens_record (hd jobdata_raw)" by simp
  then have "\<exists>st'. detail_loop fromisoformat jobdata_raw (None, [], stderr_log stderr) = Inr st'"
    using all by (intro detail_loop_total) simp_all
  then obtain tj jl lg where
    "detail_loop fromisoformat jobdata_raw (None, [], stderr_log stderr) = Inr (tj, jl, lg)"
    by (metis prod_cases3)
  then show ?thesis unfolding d by simp
qed

lemma detailed_report_states:
  fixes fromisoformat :: "string \<Rightarrow> 't option"
  assumes raw: "filter (\<lambda>l. l \<noteq> []) (splitlines stdout) = pre @ opener # body @ post"
    and len: "2 \<le> length (pre @ opener # body @ post)"
    and layout: "\<not> str_contains ''========='' ((pre @ opener # body @ post) ! 1)"
      "str_contains ''jobid ='' ((pre @ opener # body @ post) ! 0)"
    and o: "opens_record opener"
    and b: "\<forall>l \<in> set body. \<not> opens_record l"
    and t: "post = [] \<or> opens_record (hd post)"
    and ok: "parse_joblist_output fromisoformat 0 stdout stderr = Inr (jobs, lg)"
  shows "\<exists>r. jobs ! length (filter opens_record pre) = Some r
    \<and> job_id r = line_value opener
    \<and> job_state r = last_status None body
    \<and> (\<forall>l \<in> set body. \<forall>key v others. pieces l = key # v # others
           \<and> matched_key key = Some ''status'' \<and> MAP_STATUS_TOMATO v = None \<longrightarrow>
           UnrecognizedJobState v (line_value opener) \<in> set lg)"
proof -
  note d = detailed_layout_eq [OF raw [symmetric] len layout, of fromisoformat stderr]
  from ok obtain tj jl where
    loop: "detail_loop fromisoformat (pre @ opener # body @ post) (None, [], stderr_log stderr) =
             Inr (tj, jl, lg)"
    and jobs: "jobs = jl @ [tj]"
    unfolding d by (auto split: sum.splits)
  from detailed_block_state [OF loop o b t] jobs show ?thesis by simp
qed

text \<open>
  C1. The lookup in the status table never fails: looking a code up and catching the
  missing key gives the state of the specification's table for the six vendor codes and
  \<open>UNDETERMINED\<close> for any other string. The parser assigns that state. For a queue
  listing whose rows have three or four fields it returns one record per row, whatever
  the status codes are, each with the state of the table for the third field of its row.
  For a detailed report that it returns, the record of a block (a line that opens a
  record and the lines up to the next such line) has the state of the table for the value
  of the last status line of the block; and the report is returned, whatever the values
  of the status lines are, when its first line opens a record and every line has a \<open>=\<close>.
  In both layouts a code that is not in the table adds a warning to the log instead of
  raising.
\<close>

theorem status_mapping_total:
  fixes fromisoformat :: "string \<Rightarrow> 't option"
  shows
  "(case MAP_STATUS_TOMATO code of Some s \<Rightarrow> s | None \<Rightarrow> UNDETERMINED) = StateMapper code
   \<and> (length (split_ws [] line) = 3 \<or> length (split_ws [] line) = 4 \<longrightarrow>
        (\<exists>this_job :: 't JobInfo.
           parse_queue_row line lg =
             Inr (this_job,
                  if MAP_STATUS_TOMATO (split_ws [] line ! 2) = None
                  then lg @ [UnrecognizedJobState (split_ws [] line ! 2)
                               (Some (split_ws [] line ! 0))]
                  else lg)
           \<and> job_state this_job = Some (StateMapper (split_ws [] line ! 2))))
   \<and> (map strip (split_on CHR ''='' [] raw_line) = key # v # others
        \<and> \<not> str_contains ''jobid'' key \<and> \<not> str_contains ''jobname'' key
        \<and> str_contains ''status'' key \<longrightarrow>
        detail_step fromisoformat raw_line (Some (j :: 't JobInfo), job_list, lg) =
          Inr (Some (j\<lparr>job_state := Some (StateMapper v)\<rparr>), job_list,
               if MAP_STATUS_TOMATO v = None
               then lg @ [UnrecognizedJobState v (job_id j)] else lg))
   \<and> (filter (\<lambda>l. l \<noteq> []) (splitlines stdout) = header # separator # rows
        \<and> str_contains ''========='' separator
        \<and> (\<forall>r \<in> set rows. length (split_ws [] r) = 3 \<or> length (split_ws [] r) = 4) \<longrightarrow>
        (\<exists>jobs lg'. parse_joblist_output fromisoformat 0 stdout stderr = Inr (jobs, lg')
           \<and> length jobs = length rows
           \<and> (\<forall>i < length rows. \<exists>r. jobs ! i = Some r
                 \<and> job_state r = Some (StateMapper (split_ws [] (rows ! i) ! 2))
                 \<and> (MAP_STATUS_TOMATO (split_ws [] (rows ! i) ! 2) = None \<longrightarrow>
                      UnrecognizedJobState (split_ws [] (rows ! i) ! 2)
                        (Some (split_ws [] (rows ! i) ! 0)) \<in> set lg'))))
   \<and> (filter (\<lambda>l. l \<noteq> []) (splitlines stdout) = pre @ opener # body @ post
        \<and> 2 \<le> length (pre @ opener # body @ post)
        \<and> \<not> str_contains ''========='' ((pre @ opener # body @ post) ! 1)
        \<and> str_contains ''jobid ='' ((pre @ opener # body @ post) ! 0)
        \<and> opens_record opener \<and> (\<forall>l \<in> set body. \<not> opens_record l)
        \<and> (post = [] \<or> opens_record (hd post))
        \<and> parse_joblist_output fromisoformat 0 stdout stderr = Inr (jobs, lgd) \<longrightarrow>
        (\<exists>r. jobs ! length (filter opens_record pre) = Some r
           \<and> job_id r = line_value opener
           \<and> job_state r = last_status None body
           \<and> (\<forall>l \<in> set body. \<forall>key v others. pieces l = key # v # others
                  \<and> matched_key key = Some ''status'' \<and> MAP_STATUS_TOMATO v = None \<longrightarrow>
                  UnrecognizedJobState v (line_value opener) \<in> set lgd)))
   \<and> (jobdata_raw = filter (\<lambda>l. l \<noteq> []) (splitlines stdout)
        \<and> 2 \<le> length jobdata_raw
        \<and> \<not> str_contains ''========='' (jobdata_raw ! 1)
        \<and> str_contains ''jobid ='' (jobdata_raw ! 0)
        \<and> opens_record (jobdata_raw ! 0)
        \<and> (\<forall>l \<in> set jobdata_raw. 2 \<le> length (pieces l)) \<longrightarrow>
        (\<exists>jobs lg'. parse_joblist_output fromisoformat 0 stdout stderr = Inr (jobs, lg')))"
  (is "?A \<and> ?B \<and> ?C \<and> ?D \<and> ?E \<and> ?F")
proof -
  have a: ?A by (rule lookup_status)
  have b: ?B
  proof
    assume "length (split_ws [] line) = 3 \<or> length (split_ws [] line) = 4"
    from parse_queue_row_ok [OF this, of lg, where 't = 't] show
      "\<exists>this_job :: 't JobInfo.
           parse_queue_row line lg =
             Inr (this_job,
                  if MAP_STATUS_TOMATO (split_ws [] line ! 2) = None
                  then lg @ [UnrecognizedJobState (split_ws [] line ! 2)
                               (Some (split_ws [] line ! 0))]
                  else lg)
           \<and> job_state this_job = Some (StateMapper (split_ws [] line ! 2))"
      by blast
  qed
  have c: ?C by (simp add: detail_step_status)
  have d: ?D
    using queue_rows_states [of stdout header separator rows fromisoformat stderr] by blast
  have e: ?E
    using detailed_report_states [of stdout pre opener body post fromisoformat stderr jobs lgd]
    by blast
  have f: ?F
    using detailed_report_returns [of jobdata_raw stdout fromisoformat stderr] by blast
  from a b c d e f show ?thesis by blast
qed

lemma lines_unknown_status:
  "splitlines ''jobid jobname status\<newline>==========\<newline>124 other zz\<newline>'' =
     [''jobid jobname status'', ''=========='', ''124 other zz'']"
  by (simp add: splitlines_def islinebreak_def)

lemma lines_bogus_status:
  "splitlines ''jobid = 1\<newline>status = r\<newline>jobid = 2\<newline>status = bogus'' =
     [''jobid = 1'', ''status = r'', ''jobid = 2'', ''status = bogus'']"
  by (simp add: splitlines_def islinebreak_def)

lemma pieces_bogus: "pieces ''status = bogus'' = [''status'', ''bogus'']"
  unfolding pieces_def by (rule pieces_status_bogus)

lemma opens_bogus: "\<not> opens_record ''status = bogus''"
  unfolding opens_record_def pieces_bogus by simp

lemma last_status_bogus: "last_status None [''status = bogus''] = Some UNDETERMINED"
  by (simp add: pieces_bogus matched_key_literal StateMapper_def)

theorem status_mapping_total_witness:
  "StateMapper ''zz'' = UNDETERMINED
   \<and> (\<exists>this_job :: string JobInfo.
        parse_queue_row ''124 other zz'' [] =
          Inr (this_job, [UnrecognizedJobState ''zz'' (Some ''124'')])
        \<and> job_state this_job = Some UNDETERMINED)
   \<and> detail_step Some ''status = bogus''
        (Some ((new_JobInfo :: string JobInfo)\<lparr>job_id := Some ''7''\<rparr>), [], []) =
       Inr (Some (new_JobInfo\<lparr>job_id := Some ''7'', job_state := Some UNDETERMINED\<rparr>), [],
            [UnrecognizedJobState ''bogus'' (Some ''7'')])
   \<and> (\<exists>jobs lg r. parse_joblist_output Some 0
          ''jobid jobname status\<newline>==========\<newline>124 other zz\<newline>'' [] = Inr (jobs, lg)
        \<and> length jobs = 1 \<and> jobs ! 0 = Some r \<and> job_state r = Some UNDETERMINED
        \<and> UnrecognizedJobState ''zz'' (Some ''124'') \<in> set lg)
   \<and> (\<exists>jobs lg r. parse_joblist_output Some 0
          ''jobid = 1\<newline>status = r\<newline>jobid = 2\<newline>status = bogus'' [] = Inr (jobs, lg)
        \<and> jobs ! 1 = Some r \<and> job_id r = Some ''2'' \<and> job_state r = Some UNDETERMINED
        \<and> UnrecognizedJobState ''bogus'' (Some ''2'') \<in> set lg)"
proof -
  let ?T = "''jobid jobname status\<newline>==========\<newline>124 other zz\<newline>''"
  let ?D = "''jobid = 1\<newline>status = r\<newline>jobid = 2\<newline>status = bogus''"
  let ?raw = "[''jobid = 1'', ''status = r'', ''jobid = 2'', ''status = bogus'']"
  let ?j = "new_JobInfo\<lparr>job_id := Some ''7''\<rparr> :: string JobInfo"
  have zz: "MAP_STATUS_TOMATO ''zz'' = None" "MAP_STATUS_TOMATO ''bogus'' = None"
    "StateMapper ''zz'' = UNDETERMINED" "StateMapper ''bogus'' = UNDETERMINED"
    by (simp_all add: MAP_STATUS_TOMATO_def StateMapper_def)
  note old = status_mapping_total [where fromisoformat = Some and code = "''zz''"
      and line = "''124 other zz''" and lg = "[]" and raw_line = "''status = bogus''"
      and key = "''status''" and v = "''bogus''" and others = "[]" and j = ?j
      and job_list = "[]"]
  have p1: "StateMapper ''zz'' = UNDETERMINED" by (rule zz)
  have p2: "\<exists>this_job :: string JobInfo.
        parse_queue_row ''124 other zz'' [] =
          Inr (this_job, [UnrecognizedJobState ''zz'' (Some ''124'')])
        \<and> job_state this_job = Some UNDETERMINED"
    using old unfolding split_ws_row_unknown by (simp add: zz)
  have p3: "detail_step Some ''status = bogus'' (Some ?j, [], []) =
       Inr (Some (?j\<lparr>job_state := Some UNDETERMINED\<rparr>), [],
            [UnrecognizedJobState ''bogus'' (Some ''7'')])"
    using old unfolding pieces_status_bogus by (simp add: zz new_JobInfo_def)
  have tl: "filter (\<lambda>l. l \<noteq> []) (splitlines ?T) =
      ''jobid jobname status'' # ''=========='' # [''124 other zz'']"
    unfolding lines_unknown_status by simp
  have sep: "str_contains ''========='' ''==========''" by simp
  have good: "\<forall>r \<in> set [''124 other zz'']. length (split_ws [] r) = 3 \<or> length (split_ws [] r) = 4"
    by (simp add: split_ws_row_unknown del: split_ws.simps)
  note D = status_mapping_total [where fromisoformat = Some and stdout = ?T and stderr = "[]"
      and header = "''jobid jobname status''" and separator = "''==========''"
      and rows = "[''124 other zz'']",
      THEN conjunct2, THEN conjunct2, THEN conjunct2, THEN conjunct1, rule_format]
  from D [OF conjI [OF tl conjI [OF sep good]]]
  obtain jobs lg where t:
    "parse_joblist_output Some 0 ?T [] = Inr (jobs, lg)"
    "length jobs = length [''124 other zz'']"
    "\<forall>i < length [''124 other zz'']. \<exists>r. jobs ! i = Some r
        \<and> job_state r = Some (StateMapper (split_ws [] ([''124 other zz''] ! i) ! 2))
        \<and> (MAP_STATUS_TOMATO (split_ws [] ([''124 other zz''] ! i) ! 2) = None \<longrightarrow>
             UnrecognizedJobState (split_ws [] ([''124 other zz''] ! i) ! 2)
               (Some (split_ws [] ([''124 other zz''] ! i) ! 0)) \<in> set lg)"
    by (elim exE conjE)
  from t(3) [rule_format, of 0] obtain r where
    "jobs ! 0 = Some r" "job_state r = Some UNDETERMINED"
    "UnrecognizedJobState ''zz'' (Some ''124'') \<in> set lg"
    by (auto simp: split_ws_row_unknown zz simp del: split_ws.simps)
  with t(1,2) have p4: "\<exists>jobs lg r. parse_joblist_output Some 0 ?T [] = Inr (jobs, lg)
        \<and> length jobs = 1 \<and> jobs ! 0 = Some r \<and> job_state r = Some UNDETERMINED
        \<and> UnrecognizedJobState ''zz'' (Some ''124'') \<in> set lg"
    by (intro exI [of _ jobs] exI [of _ lg] exI [of _ r]) simp
  have dl: "filter (\<lambda>l. l \<noteq> []) (splitlines ?D) = ?raw"
    unfolding lines_bogus_status by simp
  have all: "\<forall>l \<in> set ?raw. 2 \<le> length (pieces l)"
    by (simp add: pieces_two_blocks pieces_examples pieces_bogus)
  have lay: "\<not> str_contains ''========='' (?raw ! 1)" "str_contains ''jobid ='' (?raw ! 0)"
    "opens_record (?raw ! 0)"
    by (simp_all add: opens_two_blocks)
  note F = status_mapping_total [where fromisoformat = Some and stdout = ?D and stderr = "[]"
      and jobdata_raw = ?raw,
      THEN conjunct2, THEN conjunct2, THEN conjunct2, THEN conjunct2, THEN conjunct2,
      rule_format]
  have "2 \<le> length ?raw" by simp
  with dl lay all have
    "?raw = filter (\<lambda>l. l \<noteq> []) (splitlines ?D) \<and> 2 \<le> length ?raw
       \<and> \<not> str_contains ''========='' (?raw ! 1) \<and> str_contains ''jobid ='' (?raw ! 0)
       \<and> opens_record (?raw ! 0) \<and> (\<forall>l \<in> set ?raw. 2 \<le> length (pieces l))"
    by simp
  from F [OF this]
  obtain jobs' lg' where d: "parse_joblist_output Some 0 ?D [] = Inr (jobs', lg')"
    by (elim exE)
  let ?pre = "[''jobid = 1'', ''status = r'']"
  let ?body = "[''status = bogus'']"
  have dec: "?pre @ ''jobid = 2'' # ?body @ [] = ?raw" by simp
  note E = status_mapping_total [where fromisoformat = Some and stdout = ?D and stderr = "[]"
      and pre = ?pre and opener = "''jobid = 2''" and body = ?body and post = "[]"
      and jobs = jobs' and lgd = lg',
      THEN conjunct2, THEN conjunct2, THEN conjunct2, THEN conjunct2, THEN conjunct1,
      rule_format]
  have "filter (\<lambda>l. l \<noteq> []) (splitlines ?D) = ?pre @ ''jobid = 2'' # ?body @ []
      \<and> 2 \<le> length (?pre @ ''jobid = 2'' # ?body @ [])
      \<and> \<not> str_contains ''========='' ((?pre @ ''jobid = 2'' # ?body @ []) ! 1)
      \<and> str_contains ''jobid ='' ((?pre @ ''jobid = 2'' # ?body @ []) ! 0)
      \<and> opens_record ''jobid = 2'' \<and> (\<forall>l \<in> set ?body. \<not> opens_record l)
      \<and> ([] = [] \<or> opens_record (hd []))
      \<and> parse_joblist_output Some 0 ?D [] = Inr (jobs', lg')"
    unfolding dec using dl lay d by (simp add: opens_two_blocks opens_bogus)
  from E [OF this]
  obtain r' where r':
    "jobs' ! length (filter opens_record ?pre) = Some r'"
    "job_id r' = line_value ''jobid = 2''"
    "job_state r' = last_status None ?body"
    "\<forall>l \<in> set ?body. \<forall>key v others. pieces l = key # v # others
        \<and> matched_key key = Some ''status'' \<and> MAP_STATUS_TOMATO v = None \<longrightarrow>
        UnrecognizedJobState v (line_value ''jobid = 2'') \<in> set lg'"
    by (elim exE conjE)
  from r'(4) have w: "UnrecognizedJobState ''bogus'' (Some ''2'') \<in> set lg'"
    by (simp add: pieces_bogus matched_key_literal zz values_two_blocks)
  from r'(1,2,3) have "jobs' ! 1 = Some r'" "job_id r' = Some ''2''"
    "job_state r' = Some UNDETERMINED"
    unfolding last_status_bogus by (simp_all add: opens_two_blocks values_two_blocks)
  with d w have p5: "\<exists>jobs lg r. parse_joblist_output Some 0 ?D [] = Inr (jobs, lg)
        \<and> jobs ! 1 = Some r \<and> job_id r = Some ''2'' \<and> job_state r = Some UNDETERMINED
        \<and> UnrecognizedJobState ''bogus'' (Some ''2'') \<in> set lg"
    by (intro exI [of _ jobs'] exI [of _ lg'] exI [of _ r']) simp
  show ?thesis using p1 p2 p3 p4 p5 by (intro conjI)
qed

subsection \<open>The command that lists the jobs\<close>

text \<open>
  Amended C8. The generator raises \<^verbatim>\<open>FeatureNotAvailable\<close> for every user that is
  not empty. Without one: for a \<^verbatim>\<open>jobs\<close> argument that Python counts as false
  (\<^verbatim>\<open>None\<close>, the empty string, the empty list, 0) it returns the command that lists
  the queue; for a string that is not empty, one status command for that id; for a list of
  n ids (n above 0), n status commands joined by \<open>&&\<close> in the order of the list; and for a
  number other than 0 it raises \<^verbatim>\<open>TypeError\<close>.
\<close>

theorem joblist_command_cases:
  "(user_truthy user \<longrightarrow>
      get_joblist_command escape_for_bash jobs user = Inl FeatureNotAvailable)
   \<and> (\<not> user_truthy user \<and> \<not> jobs_truthy jobs \<longrightarrow>
        get_joblist_command escape_for_bash jobs user = Inr ''ketchup status queue'')
   \<and> (\<not> user_truthy user \<and> jobs = JobsStr s \<and> s \<noteq> [] \<longrightarrow>
        get_joblist_command escape_for_bash jobs user =
          Inr (''ketchup status '' @ escape_for_bash s))
   \<and> (\<not> user_truthy user \<and> jobs = JobsList js \<and> js \<noteq> [] \<longrightarrow>
        (\<exists>cmds. get_joblist_command escape_for_bash jobs user = Inr (str_join '' && '' cmds)
           \<and> length cmds = length js
           \<and> (\<forall>i < length js. cmds ! i = ''ketchup status '' @ js ! i)))
   \<and> (\<not> user_truthy user \<and> jobs = JobsInt n \<and> n \<noteq> 0 \<longrightarrow>
        get_joblist_command escape_for_bash jobs user = Inl TypeError)"
  by (auto simp: get_joblist_command_def KETCHUP_def)

theorem joblist_command_cases_witness:
  "get_joblist_command id (JobsStr ''7'') (Some ''alice'') = Inl FeatureNotAvailable
   \<and> get_joblist_command id (JobsList []) None = Inr ''ketchup status queue''
   \<and> get_joblist_command id (JobsStr ''7'') None = Inr ''ketchup status 7''
   \<and> (\<exists>cmds. get_joblist_command id (JobsList [''1'', ''2'', ''3'']) None =
          Inr (str_join '' && '' cmds)
        \<and> length cmds = 3
        \<and> (\<forall>i < 3. cmds ! i = ''ketchup status '' @ [''1'', ''2'', ''3''] ! i))
   \<and> get_joblist_command id (JobsInt 5) None = Inl TypeError"
  using joblist_command_cases [of "Some ''alice''" id "JobsStr ''7''" "''7''" "[]" 0]
    joblist_command_cases [of None id "JobsList []" "[]" "[]" 0]
    joblist_command_cases [of None id "JobsStr ''7''" "''7''" "[]" 0]
    joblist_command_cases [of None id "JobsList [''1'', ''2'', ''3'']" "[]" "[''1'', ''2'', ''3'']" 0]
    joblist_command_cases [of None id "JobsInt 5" "[]" "[]" 5]
  by (simp add: numeral_3_eq_3)

text \<open>
  The claim C8 as it is written fails at the argument 0: it is neither a string nor
  iterable, and the generator returns the command that lists the queue.
\<close>

theorem joblist_command_zero_counterexample:
  "get_joblist_command id (JobsInt 0) None = Inr ''ketchup status queue''
   \<and> get_joblist_command id (JobsInt 0) None \<noteq> Inl TypeError"
  by (simp add: get_joblist_command_def KETCHUP_def)

subsection \<open>The header of the submit script\<close>

lemma title_filter: "\<forall>c \<in> set (filter title_char name). title_char c"
  by simp

lemma job_title_of_props:
  "\<exists>c cs. job_title_of name = c # cs \<and> letter_or_digit c \<and> (\<forall>x \<in> set (c # cs). title_char x)
     \<and> length (c # cs) \<le> 128"
proof (cases "filter title_char name")
  case Nil
  then show ?thesis
    by (simp add: job_title_of_def letter_or_digit_def title_char_def)
next
  case (Cons c cs)
  have all: "\<forall>x \<in> set (c # cs). title_char x"
    using title_filter [of name] Cons by simp
  show ?thesis
  proof (cases "letter_or_digit c")
    case True
    have "job_title_of name = c # take 127 cs"
      using Cons True by (simp add: job_title_of_def)
    moreover have "\<forall>x \<in> set (c # take 127 cs). title_char x"
      using all by (auto dest: in_set_takeD)
    ultimately show ?thesis using True by simp
  next
    case False
    have "job_title_of name = CHR ''j'' # take 127 (c # cs)"
      using Cons False by (simp add: job_title_of_def)
    moreover have "\<forall>x \<in> set (take 127 (c # cs)). title_char x"
      using all by (meson in_set_takeD)
    moreover have "letter_or_digit CHR ''j''" "title_char CHR ''j''"
      by (simp_all add: letter_or_digit_def title_char_def)
    ultimately show ?thesis by simp
  qed
qed

lemma header_eq:
  "job_name job_tmpl = Some name \<Longrightarrow> name \<noteq> [] \<Longrightarrow>
   snd (get_submit_script_header job_tmpl) =
     (if shell_type job_tmpl = ''powershell'' then ''$JOB_TITLE='' else ''JOB_TITLE='')
       @ [CHR 0x27] @ job_title_of name @ [CHR 0x27]"
  by (simp add: get_submit_script_header_def job_title_of_def Let_def split: list.splits)

text \<open>
  C9. For every job name that is not empty the header is the assignment to
  \<open>JOB_TITLE\<close> (with a leading \<open>$\<close> for the shell \<open>powershell\<close>) of a quoted title.
  The title is the name without the characters other than letters, digits, \<open>.\<close>, \<open>-\<close>
  and \<open>_\<close>, with the letter \<open>j\<close> put in front when nothing is left or the first
  character left is not a letter or a digit, cut to its first 128 characters. So it starts
  with a letter or a digit, has only the allowed characters, and is at most 128
  characters long. Without a job name the header is empty. The method also records the
  shell of the template.
\<close>

theorem submit_script_header_title:
  "(job_name job_tmpl = None \<or> job_name job_tmpl = Some [] \<longrightarrow>
      snd (get_submit_script_header job_tmpl) = [])
   \<and> (job_name job_tmpl = Some name \<and> name \<noteq> [] \<longrightarrow>
       (\<exists>c cs. snd (get_submit_script_header job_tmpl) =
            (if shell_type job_tmpl = ''powershell'' then ''$JOB_TITLE='' else ''JOB_TITLE='')
              @ [CHR 0x27] @ (c # cs) @ [CHR 0x27]
          \<and> c # cs =
              take 128 (case filter title_char name of
                          [] \<Rightarrow> ''j''
                        | a # as \<Rightarrow> if letter_or_digit a then a # as else CHR ''j'' # a # as)
          \<and> letter_or_digit c
          \<and> (\<forall>x \<in> set (c # cs). title_char x)
          \<and> length (c # cs) \<le> 128))
   \<and> fst (get_submit_script_header job_tmpl) = shell_type job_tmpl"
proof (intro conjI impI)
  assume "job_name job_tmpl = None \<or> job_name job_tmpl = Some []"
  then show "snd (get_submit_script_header job_tmpl) = []"
    by (auto simp: get_submit_script_header_def)
next
  assume a: "job_name job_tmpl = Some name \<and> name \<noteq> []"
  obtain c cs where t: "job_title_of name = c # cs" "letter_or_digit c"
      "\<forall>x \<in> set (c # cs). title_char x" "length (c # cs) \<le> 128"
    using job_title_of_props [of name] by blast
  have h: "snd (get_submit_script_header job_tmpl) =
     (if shell_type job_tmpl = ''powershell'' then ''$JOB_TITLE='' else ''JOB_TITLE='')
       @ [CHR 0x27] @ (c # cs) @ [CHR 0x27]"
    using header_eq [of job_tmpl name] a t(1) by simp
  have e: "c # cs = take 128 (case filter title_char name of
                          [] \<Rightarrow> ''j''
                        | a # as \<Rightarrow> if letter_or_digit a then a # as else CHR ''j'' # a # as)"
    using t(1) by (simp add: job_title_of_def)
  from h e t(2,3,4)
  show "\<exists>c cs. snd (get_submit_script_header job_tmpl) =
            (if shell_type job_tmpl = ''powershell'' then ''$JOB_TITLE='' else ''JOB_TITLE='')
              @ [CHR 0x27] @ (c # cs) @ [CHR 0x27]
          \<and> c # cs =
              take 128 (case filter title_char name of
                          [] \<Rightarrow> ''j''
                        | a # as \<Rightarrow> if letter_or_digit a then a # as else CHR ''j'' # a # as)
          \<and> letter_or_digit c
          \<and> (\<forall>x \<in> set (c # cs). title_char x)
          \<and> length (c # cs) \<le> 128"
    by blast
next
  show "fst (get_submit_script_header job_tmpl) = shell_type job_tmpl"
    by (simp add: get_submit_script_header_def)
qed

theorem submit_script_header_title_witness:
  "snd (get_submit_script_header \<lparr>shell_type = ''bash'', job_name = None\<rparr>) = []
   \<and> snd (get_submit_script_header
            \<lparr>shell_type = ''powershell'', job_name = Some ''-my job (1)''\<rparr>) =
        ''$JOB_TITLE='' @ [CHR 0x27] @ ''j-myjob1'' @ [CHR 0x27]
   \<and> snd (get_submit_script_header
            \<lparr>shell_type = ''bash'', job_name = Some ''run 7''\<rparr>) =
        ''JOB_TITLE='' @ [CHR 0x27] @ ''run7'' @ [CHR 0x27]"
proof -
  have f1: "filter title_char ''-my job (1)'' = ''-myjob1''"
    and f2: "filter title_char ''run 7'' = ''run7''"
    by (simp_all add: title_char_def)
  have l1: "\<not> letter_or_digit CHR ''-''" and l2: "letter_or_digit CHR ''r''"
    by (simp_all add: letter_or_digit_def)
  from submit_script_header_title [of "\<lparr>shell_type = ''bash'', job_name = None\<rparr>" "[]"]
  have a: "snd (get_submit_script_header \<lparr>shell_type = ''bash'', job_name = None\<rparr>) = []"
    by simp
  from submit_script_header_title
      [of "\<lparr>shell_type = ''powershell'', job_name = Some ''-my job (1)''\<rparr>" "''-my job (1)''"]
  have b: "snd (get_submit_script_header
            \<lparr>shell_type = ''powershell'', job_name = Some ''-my job (1)''\<rparr>) =
        ''$JOB_TITLE='' @ [CHR 0x27] @ ''j-myjob1'' @ [CHR 0x27]"
    unfolding f1 using l1 by auto
  from submit_script_header_title
      [of "\<lparr>shell_type = ''bash'', job_name = Some ''run 7''\<rparr>" "''run 7''"]
  have c: "snd (get_submit_script_header \<lparr>shell_type = ''bash'', job_name = Some ''run 7''\<rparr>) =
        ''JOB_TITLE='' @ [CHR 0x27] @ ''run7'' @ [CHR 0x27]"
    unfolding f2 using l2 by auto
  from a b c show ?thesis by simp
qed

subsection \<open>The job id of a submission\<close>

lemma rmatch_Star_iff:
  "(s', caps') \<in> set (rmatch (Star r) s caps) \<longleftrightarrow>
     (s' = s \<and> caps' = caps) \<or>
     (\<exists>s1 caps1. (s1, caps1) \<in> set (rmatch r s caps) \<and> length s1 < length s
        \<and> (s', caps') \<in> set (rmatch (Star r) s1 caps1))"
  by (subst rmatch.simps(6)) (auto split: if_splits)

lemma rmatch_sound:
  "(s', caps') \<in> set (rmatch r s caps) \<Longrightarrow> \<exists>u. s = u @ s' \<and> u \<in> lang r"
proof (induction r s caps arbitrary: s' caps' rule: rmatch.induct)
  case (1 s caps)
  then show ?case by (auto split: list.splits if_splits)
next
  case (2 w s caps)
  then show ?case by (auto split: if_splits simp: prefix_def)
next
  case (3 s caps)
  then show ?case by (auto split: list.splits if_splits)
next
  case (4 s caps)
  then show ?case by (auto split: list.splits if_splits)
next
  case (5 r1 r2 s caps)
  from "5.prems" obtain s1 caps1 where
    m1: "(s1, caps1) \<in> set (rmatch r1 s caps)"
    and m2: "(s', caps') \<in> set (rmatch r2 s1 caps1)"
    by auto
  from "5.IH"(1) [OF m1] obtain u where u: "s = u @ s1" "u \<in> lang r1" by blast
  from "5.IH"(2) [OF m1 refl m2] obtain v where v: "s1 = v @ s'" "v \<in> lang r2" by blast
  from u v show ?case by auto
next
  case (6 r s caps)
  from "6.prems" consider
    (stop) "s' = s"
    | (iter) s1 caps1 where "(s1, caps1) \<in> set (rmatch r s caps)" "length s1 < length s"
        "(s', caps') \<in> set (rmatch (Star r) s1 caps1)"
    unfolding rmatch_Star_iff [of s' caps' r s caps] by blast
  then show ?case
  proof cases
    case stop
    then show ?thesis by (auto intro: star.intros)
  next
    case iter
    from "6.IH"(1) [OF iter(1)] obtain u where u: "s = u @ s1" "u \<in> lang r" by blast
    from "6.IH"(2) [OF iter(1) refl iter(2) iter(3)] obtain v where
      v: "s1 = v @ s'" "v \<in> star (lang r)" by auto
    from u v have "s = (u @ v) @ s'" "u @ v \<in> star (lang r)"
      by (auto intro: star.intros)
    then show ?thesis by (metis lang.simps(6))
  qed
next
  case (7 r s caps)
  then show ?case by auto
next
  case (8 name r s caps)
  then show ?case by auto
qed

lemma rmatch_complete:
  "u \<in> lang r \<Longrightarrow> \<exists>caps'. (s', caps') \<in> set (rmatch r (u @ s') caps)"
proof (induction r arbitrary: u s' caps)
  case Any
  then show ?case by auto
next
  case (Lit w)
  then show ?case by auto
next
  case Space
  then show ?case by auto
next
  case Digit
  then show ?case by auto
next
  case (Seq r1 r2)
  from Seq.prems obtain a b where ab: "u = a @ b" "a \<in> lang r1" "b \<in> lang r2" by auto
  from Seq.IH(1) [OF ab(2), of "b @ s'" caps] obtain c1 where
    c1: "(b @ s', c1) \<in> set (rmatch r1 (a @ b @ s') caps)" by blast
  from Seq.IH(2) [OF ab(3), of s' c1] obtain c2 where
    c2: "(s', c2) \<in> set (rmatch r2 (b @ s') c1)" by blast
  from c1 c2 ab(1) show ?case by force
next
  case (Star r)
  from Star.prems have "u \<in> star (lang r)" by simp
  then show ?case
  proof (induction u arbitrary: caps rule: star.induct)
    case star_Nil
    show ?case by (subst rmatch_Star_iff) auto
  next
    case (star_step a b)
    show ?case
    proof (cases "a = []")
      case True
      with star_step.IH show ?thesis by simp
    next
      case False
      from Star.IH [OF star_step.hyps(1), of "b @ s'" caps] obtain c1 where
        c1: "(b @ s', c1) \<in> set (rmatch r (a @ b @ s') caps)" by blast
      from star_step.IH [of c1] obtain c2 where
        c2: "(s', c2) \<in> set (rmatch (Star r) (b @ s') c1)" by blast
      have len: "length (b @ s') < length ((a @ b) @ s')" using False by simp
      have "(s', c2) \<in> set (rmatch (Star r) ((a @ b) @ s') caps)"
        by (subst rmatch_Star_iff, intro disjI2 exI [of _ "b @ s'"] exI [of _ c1])
           (use c1 c2 len in simp)
      then show ?thesis by blast
    qed
  qed
next
  case (Opt r)
  then show ?case by (cases "u = []") auto
next
  case (Group name r)
  from Group.IH [of u s' caps] Group.prems obtain c1 where
    "(s', c1) \<in> set (rmatch r (u @ s') caps)" by auto
  then show ?case by force
qed

lemma rmatch_group:
  assumes "(s', caps') \<in> set (rmatch (Group name r) s caps)"
  shows "\<exists>u. s = u @ s' \<and> u \<in> lang r \<and> caps' name = Some u"
proof -
  from assms obtain caps1 where
    m: "(s', caps1) \<in> set (rmatch r s caps)"
    and c: "caps' = caps1(name \<mapsto> take (length s - length s') s)"
    by auto
  from rmatch_sound [OF m] obtain u where u: "s = u @ s'" "u \<in> lang r" by blast
  then have "take (length s - length s') s = u" by simp
  with c u show ?thesis by auto
qed

lemma rmatch_Seq_iff:
  "(s', caps') \<in> set (rmatch (Seq r1 r2) s caps) \<longleftrightarrow>
     (\<exists>s1 caps1. (s1, caps1) \<in> set (rmatch r1 s caps) \<and> (s', caps') \<in> set (rmatch r2 s1 caps1))"
  by auto


lemma star_class: "star {[c] | c. P c} = {w. \<forall>c \<in> set w. P c}"
proof (intro set_eqI iffI)
  fix w assume "w \<in> star {[c] | c. P c}"
  then show "w \<in> {w. \<forall>c \<in> set w. P c}"
    by (induction rule: star.induct) auto
next
  fix w assume "w \<in> {w. \<forall>c \<in> set w. P c}"
  then have "\<forall>c \<in> set w. P c" by simp
  then show "w \<in> star {[c] | c. P c}"
  proof (induction w)
    case Nil
    show ?case by (rule star.star_Nil)
  next
    case (Cons a w)
    then have "[a] \<in> {[c] | c. P c}" "w \<in> star {[c] | c. P c}" by auto
    from star.star_step [OF this] show ?case by simp
  qed
qed

lemma lang_Star_Space: "lang (Star Space) = {w. \<forall>c \<in> set w. isspace c}"
  by (simp add: star_class)

lemma lang_Star_Any: "lang (Star Any) = {w. CHR 0x0A \<notin> set w}"
  using star_class [of "\<lambda>c. c \<noteq> CHR 0x0A"] by auto

lemma class_plus:
  "{u @ v | u v. u \<in> {[c] | c. P c} \<and> v \<in> {w. \<forall>c \<in> set w. P c}} =
     {w. w \<noteq> [] \<and> (\<forall>c \<in> set w. P c)}"
proof (intro set_eqI iffI)
  fix w assume "w \<in> {w. w \<noteq> [] \<and> (\<forall>c \<in> set w. P c)}"
  then obtain a v where w: "w = a # v" "P a" "\<forall>c \<in> set v. P c"
    by (cases w) auto
  then have "w = [a] @ v" "[a] \<in> {[c] | c. P c}" "v \<in> {w. \<forall>c \<in> set w. P c}"
    by auto
  then show "w \<in> {u @ v | u v. u \<in> {[c] | c. P c} \<and> v \<in> {w. \<forall>c \<in> set w. P c}}"
    by blast
qed auto

lemma lang_Plus_Space: "lang (Plus Space) = {w. w \<noteq> [] \<and> (\<forall>c \<in> set w. isspace c)}"
  unfolding Plus_def lang.simps star_class by (rule class_plus)

lemma lang_Plus_Digit: "lang (Plus Digit) = {w. w \<noteq> [] \<and> (\<forall>c \<in> set w. isdigit c)}"
  unfolding Plus_def lang.simps star_class by (rule class_plus)

lemma regexp_parts:
  "TOMATO_SUBMITTED_REGEXP =
     Seq prefix_part (Seq key_part (Seq (Plus Space) (Group ''jobid'' (Plus Digit))))"
  by (simp add: TOMATO_SUBMITTED_REGEXP_def prefix_part_def key_part_def)

lemma lang_prefix_part:
  "lang prefix_part =
     insert [] {x @ '':'' @ ws0 | x ws0. CHR 0x0A \<notin> set x \<and> (\<forall>c \<in> set ws0. isspace c)}"
  unfolding prefix_part_def lang.simps(7,8,5) lang_Star_Any lang_Star_Space lang.simps(2)
  by auto

lemma lang_key_part:
  "lang key_part = {''jobid'' @ ws1 @ ''='' | ws1. ws1 \<noteq> [] \<and> (\<forall>c \<in> set ws1. isspace c)}"
  unfolding key_part_def lang.simps(8,5) lang_Plus_Space lang.simps(2)
  by auto


lemma concat_map_hd:
  "concat (map f xs) = x # rest \<Longrightarrow> \<exists>y \<in> set xs. \<exists>rest'. f y = x # rest'"
  by (induction xs) (auto simp: append_eq_Cons_conv)

lemma star_digit_hd:
  "\<exists>rest. rmatch (Star Digit) s caps = (dropWhile isdigit s, caps) # rest"
proof (induction s)
  case Nil
  show ?case by (subst rmatch.simps(6)) simp
next
  case (Cons c cs)
  show ?case
  proof (cases "isdigit c")
    case True
    from Cons.IH obtain rest where
      "rmatch (Star Digit) cs caps = (dropWhile isdigit cs, caps) # rest" by blast
    with True show ?thesis by (subst rmatch.simps(6)) simp
  next
    case False
    then show ?thesis by (subst rmatch.simps(6)) simp
  qed
qed

lemma plus_digit_hd:
  assumes "rmatch (Plus Digit) s caps = x # rest"
  shows "\<exists>d. d \<noteq> [] \<and> (\<forall>c \<in> set d. isdigit c) \<and> s = d @ fst x \<and> snd x = caps
           \<and> (\<forall>c r. fst x = c # r \<longrightarrow> \<not> isdigit c)"
proof (cases s)
  case Nil
  with assms show ?thesis by (simp add: Plus_def)
next
  case (Cons c cs)
  with assms have dig: "isdigit c" and m: "rmatch (Star Digit) cs caps = x # rest"
    by (auto simp: Plus_def split: if_splits)
  from star_digit_hd [of cs caps] m have x: "x = (dropWhile isdigit cs, caps)" by auto
  have "s = (c # takeWhile isdigit cs) @ fst x" using Cons x by simp
  moreover have "\<forall>a \<in> set (c # takeWhile isdigit cs). isdigit a"
    using dig by (auto dest: set_takeWhileD)
  moreover have "\<forall>a r. fst x = a # r \<longrightarrow> \<not> isdigit a"
    using x by (metis fst_conv hd_dropWhile list.sel(1) list.distinct(1))
  ultimately show ?thesis using x by (intro exI [of _ "c # takeWhile isdigit cs"]) simp
qed

lemma group_hd:
  assumes "rmatch (Group name r) s caps = x # rest"
  shows "\<exists>y rest'. rmatch r s caps = y # rest'
           \<and> x = (fst y, (snd y)(name \<mapsto> take (length s - length (fst y)) s))"
  using assms by (cases "rmatch r s caps") (auto split: prod.splits)

lemma regexp_first_match:
  assumes "rmatch TOMATO_SUBMITTED_REGEXP l caps = (s', caps') # rest"
  shows "\<exists>d. caps' ''jobid'' = Some d \<and> submitted_line l d"
proof -
  let ?G = "Group ''jobid'' (Plus Digit)"
  from assms have
    "concat (map (\<lambda>(s1, c1). rmatch (Seq key_part (Seq (Plus Space) ?G)) s1 c1)
       (rmatch prefix_part l caps)) = (s', caps') # rest"
    unfolding regexp_parts
      rmatch.simps(5) [of prefix_part "Seq key_part (Seq (Plus Space) ?G)" l caps] .
  from concat_map_hd [OF this] obtain s1 c1 rest1 where
    m1: "(s1, c1) \<in> set (rmatch prefix_part l caps)"
    and r1: "rmatch (Seq key_part (Seq (Plus Space) ?G)) s1 c1 = (s', caps') # rest1"
    by auto
  from r1 have
    "concat (map (\<lambda>(s2, c2). rmatch (Seq (Plus Space) ?G) s2 c2)
       (rmatch key_part s1 c1)) = (s', caps') # rest1"
    unfolding rmatch.simps(5) [of key_part "Seq (Plus Space) ?G" s1 c1] .
  from concat_map_hd [OF this] obtain s2 c2 rest2 where
    m2: "(s2, c2) \<in> set (rmatch key_part s1 c1)"
    and r2: "rmatch (Seq (Plus Space) ?G) s2 c2 = (s', caps') # rest2"
    by auto
  from r2 have
    "concat (map (\<lambda>(s3, c3). rmatch ?G s3 c3) (rmatch (Plus Space) s2 c2)) =
       (s', caps') # rest2"
    unfolding rmatch.simps(5) [of "Plus Space" ?G s2 c2] .
  from concat_map_hd [OF this] obtain s3 c3 rest3 where
    m3: "(s3, c3) \<in> set (rmatch (Plus Space) s2 c2)"
    and r3: "rmatch ?G s3 c3 = (s', caps') # rest3"
    by auto
  from group_hd [OF r3] obtain y rest4 where
    y: "rmatch (Plus Digit) s3 c3 = y # rest4"
    and x: "(s', caps') = (fst y, (snd y)(''jobid'' \<mapsto> take (length s3 - length (fst y)) s3))"
    by blast
  from plus_digit_hd [OF y] obtain d where
    d: "d \<noteq> []" "\<forall>c \<in> set d. isdigit c" "s3 = d @ fst y"
      "\<forall>c r. fst y = c # r \<longrightarrow> \<not> isdigit c"
    by blast
  from x d(3) have s': "s' = fst y" and cap: "caps' ''jobid'' = Some d" by auto
  from rmatch_sound [OF m1] obtain a where a: "l = a @ s1" "a \<in> lang prefix_part" by blast
  from rmatch_sound [OF m2] obtain b where b: "s1 = b @ s2" "b \<in> lang key_part" by blast
  from rmatch_sound [OF m3] obtain w where w: "s2 = w @ s3" "w \<in> lang (Plus Space)" by blast
  from b(2) obtain ws1 where ws1: "b = ''jobid'' @ ws1 @ ''=''" "ws1 \<noteq> []"
      "\<forall>c \<in> set ws1. isspace c"
    unfolding lang_key_part by blast
  from w(2) have ws2: "w \<noteq> []" "\<forall>c \<in> set w. isspace c"
    unfolding lang_Plus_Space by auto
  from a(2) have pre: "a = [] \<or> (\<exists>x ws0. a = x @ '':'' @ ws0 \<and> CHR 0x0A \<notin> set x
      \<and> (\<forall>c \<in> set ws0. isspace c))"
    unfolding lang_prefix_part by blast
  have "l = a @ ''jobid'' @ ws1 @ ''='' @ w @ d @ s'"
    using a(1) b(1) w(1) d(3) ws1(1) s' by simp
  with pre ws1 ws2 d s' have "submitted_line l d"
    unfolding submitted_line_def by blast
  with cap show ?thesis by blast
qed

lemma regexp_complete:
  assumes "submitted_line l d"
  shows "rmatch TOMATO_SUBMITTED_REGEXP l caps \<noteq> []"
proof -
  from assms obtain pre ws1 ws2 rest where
    l: "l = pre @ ''jobid'' @ ws1 @ ''='' @ ws2 @ d @ rest"
    and pre: "pre = [] \<or> (\<exists>x ws0. pre = x @ '':'' @ ws0 \<and> CHR 0x0A \<notin> set x
                          \<and> (\<forall>c \<in> set ws0. isspace c))"
    and ws: "ws1 \<noteq> []" "\<forall>c \<in> set ws1. isspace c" "ws2 \<noteq> []" "\<forall>c \<in> set ws2. isspace c"
    and d: "d \<noteq> []" "\<forall>c \<in> set d. isdigit c"
    unfolding submitted_line_def by blast
  have a: "pre \<in> lang prefix_part" using pre unfolding lang_prefix_part by blast
  have b: "''jobid'' @ ws1 @ ''='' \<in> lang key_part" using ws unfolding lang_key_part by blast
  have w: "ws2 \<in> lang (Plus Space)" using ws unfolding lang_Plus_Space by simp
  have g: "d \<in> lang (Group ''jobid'' (Plus Digit))"
    using d unfolding lang.simps(8) lang_Plus_Digit by simp
  have "ws2 @ d \<in> lang (Seq (Plus Space) (Group ''jobid'' (Plus Digit)))"
    using w g unfolding lang.simps(5) by blast
  with b have "(''jobid'' @ ws1 @ ''='') @ ws2 @ d
      \<in> lang (Seq key_part (Seq (Plus Space) (Group ''jobid'' (Plus Digit))))"
    unfolding lang.simps(5) [of key_part] by blast
  with a have "pre @ (''jobid'' @ ws1 @ ''='') @ ws2 @ d \<in> lang TOMATO_SUBMITTED_REGEXP"
    unfolding regexp_parts lang.simps(5) [of prefix_part] by blast
  from rmatch_complete [OF this, of rest caps] l show ?thesis by auto
qed

lemma re_match_Some:
  assumes "re_match TOMATO_SUBMITTED_REGEXP l = Some caps"
  shows "\<exists>d. caps ''jobid'' = Some d \<and> submitted_line l d"
proof -
  from assms obtain s' rest where
    "rmatch TOMATO_SUBMITTED_REGEXP l Map.empty = (s', caps) # rest"
    by (auto simp: re_match_def split: list.splits)
  from regexp_first_match [OF this] show ?thesis .
qed

lemma re_match_None_iff:
  "re_match TOMATO_SUBMITTED_REGEXP l = None \<longleftrightarrow> (\<forall>d. \<not> submitted_line l d)"
proof
  assume n: "re_match TOMATO_SUBMITTED_REGEXP l = None"
  show "\<forall>d. \<not> submitted_line l d"
  proof (intro allI notI)
    fix d assume "submitted_line l d"
    from regexp_complete [OF this, of Map.empty] n show False
      by (auto simp: re_match_def split: list.splits)
  qed
next
  assume a: "\<forall>d. \<not> submitted_line l d"
  show "re_match TOMATO_SUBMITTED_REGEXP l = None"
  proof (cases "re_match TOMATO_SUBMITTED_REGEXP l")
    case None
    then show ?thesis .
  next
    case (Some caps)
    from re_match_Some [OF this] a show ?thesis by blast
  qed
qed

lemma submit_loop_none:
  "\<forall>l \<in> set lines. \<forall>d. \<not> submitted_line (strip l) d \<Longrightarrow>
   submit_loop lines = Inl SchedulerError"
  by (induction lines) (simp_all add: re_match_None_iff [symmetric])

lemma submit_loop_first:
  assumes "\<forall>l' \<in> set pre. \<forall>d. \<not> submitted_line (strip l') d"
    and "\<exists>d. submitted_line (strip l) d"
  shows "\<exists>d. submit_loop (pre @ l # post) = Inr (Some d) \<and> submitted_line (strip l) d"
  using assms(1)
proof (induction pre)
  case Nil
  from assms(2) have "re_match TOMATO_SUBMITTED_REGEXP (strip l) \<noteq> None"
    by (simp add: re_match_None_iff)
  then obtain caps where c: "re_match TOMATO_SUBMITTED_REGEXP (strip l) = Some caps"
    by auto
  from re_match_Some [OF c] c show ?case by auto
next
  case (Cons a pre)
  then have "re_match TOMATO_SUBMITTED_REGEXP (strip a) = None"
    by (simp add: re_match_None_iff)
  with Cons show ?case by simp
qed

text \<open>
  C7. With an exit code other than 0 the extractor raises \<^verbatim>\<open>SchedulerError\<close>. With
  exit code 0 it goes through the lines of the standard output in order, each with the
  white space at its ends removed: when no line has the form
  \<open>(optional prefix and colon) jobid = <digits>\<close> it raises \<^verbatim>\<open>SchedulerError\<close>, and
  otherwise it returns digits of the first line of that form, a whole block of digits that
  stands in this form in the line.
\<close>

theorem submit_output_jobid:
  "(retval \<noteq> 0 \<longrightarrow> parse_submit_output retval stdout stderr = Inl SchedulerError)
   \<and> (retval = 0
        \<and> (\<forall>l \<in> set (split_on CHR 0x0A [] stdout). \<forall>d. \<not> submitted_line (strip l) d) \<longrightarrow>
        parse_submit_output retval stdout stderr = Inl SchedulerError)
   \<and> (retval = 0 \<and> split_on CHR 0x0A [] stdout = pre @ l # post
        \<and> (\<forall>l' \<in> set pre. \<forall>d. \<not> submitted_line (strip l') d)
        \<and> (\<exists>d. submitted_line (strip l) d) \<longrightarrow>
        (\<exists>d. parse_submit_output retval stdout stderr = Inr (Some d)
           \<and> submitted_line (strip l) d))"
proof (intro conjI impI)
  assume "retval \<noteq> 0"
  then show "parse_submit_output retval stdout stderr = Inl SchedulerError"
    by (simp add: parse_submit_output_def)
next
  assume "retval = 0
    \<and> (\<forall>l \<in> set (split_on CHR 0x0A [] stdout). \<forall>d. \<not> submitted_line (strip l) d)"
  then show "parse_submit_output retval stdout stderr = Inl SchedulerError"
    by (simp add: parse_submit_output_def submit_loop_none)
next
  assume a: "retval = 0 \<and> split_on CHR 0x0A [] stdout = pre @ l # post
        \<and> (\<forall>l' \<in> set pre. \<forall>d. \<not> submitted_line (strip l') d)
        \<and> (\<exists>d. submitted_line (strip l) d)"
  then have "\<exists>d. submit_loop (pre @ l # post) = Inr (Some d) \<and> submitted_line (strip l) d"
    by (intro submit_loop_first) simp_all
  with a show "\<exists>d. parse_submit_output retval stdout stderr = Inr (Some d)
           \<and> submitted_line (strip l) d"
    by (simp add: parse_submit_output_def)
qed

lemma submit_example_lines:
  "split_on CHR 0x0A [] ''Submitting...\<newline>jobid = 4821\<newline>'' =
     [''Submitting...'', ''jobid = 4821'', []]"
  by simp

lemma submit_example_strip:
  "strip ''Submitting...'' = ''Submitting...''" "strip ''jobid = 4821'' = ''jobid = 4821''"
  "strip [] = []"
  by (simp_all add: strip_def isspace_def)

lemma submit_example_no_match:
  "re_match TOMATO_SUBMITTED_REGEXP ''Submitting...'' = None"
  "re_match TOMATO_SUBMITTED_REGEXP [] = None"
  by (simp_all add: re_match_def TOMATO_SUBMITTED_REGEXP_def Plus_def rmatch.simps(6)
      isspace_def isdigit_def)

lemma submit_example_match:
  "\<exists>caps. re_match TOMATO_SUBMITTED_REGEXP ''jobid = 4821'' = Some caps
     \<and> caps ''jobid'' = Some ''4821''"
  by (simp add: re_match_def TOMATO_SUBMITTED_REGEXP_def Plus_def rmatch.simps(6)
      isspace_def isdigit_def)

lemma submit_example_value:
  "parse_submit_output 0 ''Submitting...\<newline>jobid = 4821\<newline>'' [] = Inr (Some ''4821'')"
  unfolding parse_submit_output_def submit_example_lines
  using submit_example_match
  by (auto simp: submit_example_strip submit_example_no_match)

theorem submit_output_jobid_witness:
  "parse_submit_output 0 ''Submitting...\<newline>jobid = 4821\<newline>'' [] = Inr (Some ''4821'')
   \<and> submitted_line ''jobid = 4821'' ''4821''
   \<and> parse_submit_output 0 ''Submitting...\<newline>\<newline>'' [] = Inl SchedulerError
   \<and> parse_submit_output 1 ''jobid = 4821'' [] = Inl SchedulerError"
proof -
  let ?out = "''Submitting...\<newline>jobid = 4821\<newline>''"
  have n: "\<forall>l' \<in> set [''Submitting...'']. \<forall>d. \<not> submitted_line (strip l') d"
    using re_match_None_iff [of "''Submitting...''"]
    by (simp add: submit_example_strip submit_example_no_match)
  have "re_match TOMATO_SUBMITTED_REGEXP (strip ''jobid = 4821'') \<noteq> None"
    unfolding submit_example_strip using submit_example_match by auto
  then have e: "\<exists>d. submitted_line (strip ''jobid = 4821'') d"
    by (simp add: re_match_None_iff)
  have l: "split_on CHR 0x0A [] ?out = [''Submitting...''] @ ''jobid = 4821'' # [[]]"
    by simp
  from submit_output_jobid [of 0 ?out "[]" "[''Submitting...'']" "''jobid = 4821''" "[[]]"]
    l n e
  obtain d where d: "parse_submit_output 0 ?out [] = Inr (Some d)"
    "submitted_line (strip ''jobid = 4821'') d"
    by blast
  with submit_example_value have "d = ''4821''" by simp
  with d(2) have s: "submitted_line ''jobid = 4821'' ''4821''"
    by (simp add: submit_example_strip)
  have "\<forall>l \<in> set (split_on CHR 0x0A [] ''Submitting...\<newline>\<newline>'').
          \<forall>d. \<not> submitted_line (strip l) d"
    using re_match_None_iff [of "''Submitting...''"] re_match_None_iff [of "[]"]
    by (simp add: submit_example_strip submit_example_no_match)
  with submit_output_jobid [of 0 "''Submitting...\<newline>\<newline>''" "[]"]
  have f: "parse_submit_output 0 ''Submitting...\<newline>\<newline>'' [] = Inl SchedulerError"
    by blast
  have r: "parse_submit_output 1 ''jobid = 4821'' [] = Inl SchedulerError"
    using submit_output_jobid [of 1 "''jobid = 4821''" "[]"] by simp
  from submit_example_value s f r show ?thesis by simp
qed

end
